theory Spec2Isabelle
  imports Complex_Main "HOL-Library.Sublist"
begin

section \<open>VoiceOperatedCamera: the data model\<close>

text \<open>
  A shallow embedding of the React component of \<^verbatim>\<open>src/VoiceOperatedCamera.tsx\<close>.
  The component's state hooks, its refs, the two DOM elements behind the refs and the
  browser services it talks to (capture device, speech synthesiser, console, animation
  frames) are the fields of one record; every handler of the component is a function
  from that record to the updated record. What the browser and the two perception
  libraries answer (the outcome of \<^verbatim>\<open>getUserMedia\<close>, of \<^verbatim>\<open>play\<close>, of the two
  detection calls) is an argument of the handler, an error being the left injection.

  JavaScript numbers are modelled as reals (scores are finite and never NaN), strings
  as lists of 8-bit characters (transcripts and labels are ASCII).
  An \<^verbatim>\<open>async\<close> handler is run to completion in one step: the interleaving of
  other events between its \<^verbatim>\<open>await\<close> points is outside the model.
\<close>

datatype error = NotAllowedError | NotFoundError | AbortError | TypeError | InferenceError

type_synonym track = nat

record media_stream =
  tracks :: "track list"
  frameWidth :: nat
  frameHeight :: nat

record video_el =
  srcObject :: "media_stream option"
  paused :: bool
  ended :: bool
  videoWidth :: nat
  videoHeight :: nat

type_synonym rect = "real \<times> real \<times> real \<times> real"

record face =
  box :: rect
  landmarks :: "(real \<times> real) list"
  expressions :: "(string \<times> real) list"

record prediction =
  bbox :: rect
  pred_class :: string
  pred_score :: real

text \<open>
  What has been painted on the overlay since it was last cleared, in order. The
  drawing context's \<^verbatim>\<open>fillStyle\<close>, \<^verbatim>\<open>font\<close>, \<^verbatim>\<open>strokeStyle\<close> and
  \<^verbatim>\<open>lineWidth\<close> are recorded with the operation they apply to.
\<close>

datatype draw_op =
    DrawDetections "face list"
  | DrawFaceLandmarks "face list"
  | DrawFaceExpressions "face list"
  | FillText string string string real real
  | StrokeRect rect nat string
  | ClearRegion rect

record canvas_el =
  cwidth :: nat
  cheight :: nat
  painted :: "draw_op list"

datatype speech_event = Cancel | Speak string

datatype log_entry =
    LogModelsLoaded
  | LogModelLoadError error
  | LogVoiceCommand string
  | LogCameraError error

text \<open>
  One detection loop, as \<^verbatim>\<open>detectLoop\<close> creates it: the values of
  \<^verbatim>\<open>modelsLoaded\<close> and \<^verbatim>\<open>cocoModel\<close> that its \<^verbatim>\<open>detect\<close> closure captured,
  the display size it computed, and whether its next iteration is scheduled.
\<close>

datatype loop_status = Scheduled | Returned | Rejected error

record loop =
  lp_modelsLoaded :: bool
  lp_cocoModel :: bool
  lp_displaySize :: "nat \<times> nat"
  lp_status :: loop_status

text \<open>
  The values of the state hooks that the functions of one render close over.
  \<^verbatim>\<open>cocoModel\<close> is an opaque model object or null: only whether it is there matters.
\<close>

record closure =
  cl_modelsLoaded :: bool
  cl_cocoModel :: bool

record state =
  isCameraOn :: bool
  statusMessage :: string
  expression :: string
  modelsLoaded :: bool
  cocoModel :: bool
  lastSpokenExpression :: string
  mounted :: bool
  video :: video_el
  canvas :: canvas_el
  liveTracks :: "track set"
  speech :: "speech_event list"
  console :: "log_entry list"
  loops :: "loop list"

text \<open>
  \<^verbatim>\<open>mounted\<close> says whether \<^verbatim>\<open>videoRef.current\<close> and \<^verbatim>\<open>canvasRef.current\<close>
  hold their elements (React sets both when the component mounts and clears both when
  it unmounts). \<^verbatim>\<open>liveTracks\<close> is the set of capture tracks that have been handed
  out by the device and not stopped yet.
\<close>

definition initial_state :: state where
  "initial_state = \<lparr>
     isCameraOn = False,
     statusMessage = ''Say 'start camera' or use the buttons'',
     expression = '''',
     modelsLoaded = False,
     cocoModel = False,
     lastSpokenExpression = '''',
     mounted = True,
     video = \<lparr>srcObject = None, paused = True, ended = False,
              videoWidth = 0, videoHeight = 0\<rparr>,
     canvas = \<lparr>cwidth = 640, cheight = 480, painted = []\<rparr>,
     liveTracks = {},
     speech = [],
     console = [],
     loops = []\<rparr>"

definition firstRender :: closure where
  "firstRender = \<lparr>cl_modelsLoaded = False, cl_cocoModel = False\<rparr>"

definition currentRender :: "state \<Rightarrow> closure" where
  "currentRender s = \<lparr>cl_modelsLoaded = modelsLoaded s, cl_cocoModel = cocoModel s\<rparr>"

text \<open>The part of the state that the JSX shows: status line, ON/OFF badge, expression.\<close>

definition statusText :: "state \<Rightarrow> string" where
  "statusText s = (if modelsLoaded s then statusMessage s else ''Loading models...'')"

definition view :: "state \<Rightarrow> string \<times> bool \<times> string" where
  "view s = (statusText s, isCameraOn s, expression s)"

text \<open>\<^verbatim>\<open>loadModels\<close>: both state hooks are set only when every model has loaded.\<close>

definition loadModels :: "error option \<Rightarrow> state \<Rightarrow> state" where
  "loadModels outcome s =
     (case outcome of
        None \<Rightarrow> s\<lparr>cocoModel := True, modelsLoaded := True,
                  console := console s @ [LogModelsLoaded]\<rparr>
      | Some e \<Rightarrow> s\<lparr>console := console s @ [LogModelLoadError e]\<rparr>)"

section \<open>Strings and numbers of the host language\<close>

text \<open>
  \<^verbatim>\<open>String.prototype.toLowerCase\<close>, \<^verbatim>\<open>trim\<close> and \<^verbatim>\<open>includes\<close> on ASCII
  strings. No character outside ASCII lower-cases to a letter of \<^verbatim>\<open>start camera\<close>
  or \<^verbatim>\<open>stop camera\<close>, so the restriction does not change which transcripts match.
  JavaScript also lower-cases capitals outside ASCII and trims white space outside ASCII
  (the no-break space and others): for such a transcript the command written to the
  console differs from the one here, the branch taken does not.
\<close>

definition toLowerChar :: "char \<Rightarrow> char" where
  "toLowerChar c =
     (case map_of (zip ''ABCDEFGHIJKLMNOPQRSTUVWXYZ'' ''abcdefghijklmnopqrstuvwxyz'') c of
        None \<Rightarrow> c
      | Some l \<Rightarrow> l)"

definition toLowerCase :: "string \<Rightarrow> string" where
  "toLowerCase t = map toLowerChar t"

definition isWhiteSpace :: "char \<Rightarrow> bool" where
  "isWhiteSpace c =
     (c \<in> set [CHR '' '', CHR 0x09, CHR 0x0A, CHR 0x0B, CHR 0x0C, CHR 0x0D])"

definition trim :: "string \<Rightarrow> string" where
  "trim t = rev (dropWhile isWhiteSpace (rev (dropWhile isWhiteSpace t)))"

fun includes_str :: "string \<Rightarrow> string \<Rightarrow> bool" where
  "includes_str [] needle = (needle = [])"
| "includes_str (c # cs) needle = (prefix needle (c # cs) \<or> includes_str cs needle)"

text \<open>Decimal digits of a natural number, as \<^verbatim>\<open>String(n)\<close> prints them.\<close>

fun digits :: "nat \<Rightarrow> string" where
  "digits n =
     (if n < 10 then [''0123456789'' ! n]
      else digits (n div 10) @ [''0123456789'' ! (n mod 10)])"

declare digits.simps [simp del]

text \<open>
  \<^verbatim>\<open>x.toFixed(2)\<close>: the integer n nearest to 100 x, the larger one on a tie, printed
  with two decimals; a negative x prints as minus the rendering of its absolute value.
  \<^verbatim>\<open>Math.round(x)\<close> is the integer nearest to x, the larger one on a tie.
  Both are taken over the exact product, without the rounding of the multiplication to
  a double.
\<close>

definition toFixed2 :: "real \<Rightarrow> string" where
  "toFixed2 x =
     (let n = nat \<lfloor>\<bar>x\<bar> * 100 + 1 / 2\<rfloor>;
          body = digits (n div 100) @ ''.'' @ digits (n mod 100 div 10) @ digits (n mod 10)
      in if x < 0 then ''-'' @ body else body)"

definition round_str :: "real \<Rightarrow> string" where
  "round_str x =
     (let r = \<lfloor>x + 1 / 2\<rfloor>
      in if r < 0 then ''-'' @ digits (nat (- r)) else digits (nat r))"

section \<open>Expression selection and speech\<close>

text \<open>
  An \<^verbatim>\<open>expressions\<close> object is the list of its own properties in the order of
  \<^verbatim>\<open>Object.keys\<close>. \<^verbatim>\<open>score obj k\<close> is \<^verbatim>\<open>expressionsObj[k] ?? 0\<close>.
\<close>

definition score :: "(string \<times> real) list \<Rightarrow> string \<Rightarrow> real" where
  "score obj k = (case map_of obj k of None \<Rightarrow> 0 | Some v \<Rightarrow> v)"

text \<open>The callback of \<^verbatim>\<open>reduce\<close>: \<^verbatim>\<open>a\<close> is the accumulator, \<^verbatim>\<open>b\<close> the next key.\<close>

definition pick :: "(string \<times> real) list \<Rightarrow> string \<Rightarrow> string \<Rightarrow> string" where
  "pick obj a b = (if score obj a > score obj b then a else b)"

text \<open>
  \<^verbatim>\<open>Object.keys(expressionsObj).reduce(...)\<close> with no initial value: the first key
  starts the accumulator, and an empty array throws a TypeError.
\<close>

definition maxExpression :: "(string \<times> real) list \<Rightarrow> error + string" where
  "maxExpression obj =
     (case map fst obj of
        [] \<Rightarrow> Inl TypeError
      | k # ks \<Rightarrow> Inr (foldl (pick obj) k ks))"

definition speakExpression :: "string \<Rightarrow> state \<Rightarrow> state" where
  "speakExpression text s =
     (if text \<noteq> lastSpokenExpression s
      then s\<lparr>speech := speech s @ [Cancel, Speak (''You look '' @ text)],
             lastSpokenExpression := text\<rparr>
      else s)"

section \<open>The overlay\<close>

text \<open>
  \<^verbatim>\<open>ctx.clearRect(x, y, w, h)\<close>: a rectangle that covers the whole surface leaves
  it blank; any other one is recorded as an erased region.
\<close>

definition clearRect :: "real \<Rightarrow> real \<Rightarrow> real \<Rightarrow> real \<Rightarrow> canvas_el \<Rightarrow> canvas_el" where
  "clearRect x y w h c =
     (if x \<le> 0 \<and> y \<le> 0 \<and> real (cwidth c) \<le> x + w \<and> real (cheight c) \<le> y + h
      then c\<lparr>painted := []\<rparr>
      else c\<lparr>painted := painted c @ [ClearRegion (x, y, w, h)]\<rparr>)"

definition clearCanvas :: "canvas_el \<Rightarrow> canvas_el" where
  "clearCanvas c = clearRect 0 0 (real (cwidth c)) (real (cheight c)) c"

definition paint :: "draw_op list \<Rightarrow> canvas_el \<Rightarrow> canvas_el" where
  "paint ops c = c\<lparr>painted := painted c @ ops\<rparr>"

text \<open>
  \<^verbatim>\<open>faceapi.matchDimensions(canvas, displaySize)\<close> assigns the canvas its width and
  height, which resets its bitmap.
\<close>

definition matchDimensions :: "nat \<times> nat \<Rightarrow> canvas_el \<Rightarrow> canvas_el" where
  "matchDimensions displaySize c =
     \<lparr>cwidth = fst displaySize, cheight = snd displaySize, painted = []\<rparr>"

text \<open>Lines 113 to 116 of \<^verbatim>\<open>detect\<close>: clear the overlay, then the three face drawings.\<close>

definition drawFaces :: "face list \<Rightarrow> state \<Rightarrow> state" where
  "drawFaces resized s =
     s\<lparr>canvas := paint [DrawDetections resized, DrawFaceLandmarks resized,
                         DrawFaceExpressions resized] (clearCanvas (canvas s))\<rparr>"

text \<open>Lines 143 to 152 of \<^verbatim>\<open>detect\<close>: one box and one caption for each prediction.\<close>

definition drawPrediction :: "prediction \<Rightarrow> draw_op list" where
  "drawPrediction pred =
     (case bbox pred of (x, y, w, h) \<Rightarrow>
        [StrokeRect (x, y, w, h) 2 ''lime'',
         FillText (pred_class pred @ '' ('' @ round_str (pred_score pred * 100) @ ''%)'')
           ''lime'' ''14px Arial'' x (y - 5)])"

definition drawPredictions :: "prediction list \<Rightarrow> state \<Rightarrow> state" where
  "drawPredictions predictions s =
     s\<lparr>canvas := paint (concat (map drawPrediction predictions)) (canvas s)\<rparr>"

section \<open>The aggregator: lines 118 to 139 of detect\<close>

text \<open>
  With no face the text becomes \<^verbatim>\<open>No face detected\<close> and the last spoken label is
  reset. Otherwise the first face alone counts: its label is selected (an empty
  \<^verbatim>\<open>expressions\<close> object makes \<^verbatim>\<open>reduce\<close> throw before anything is set), shown
  with its confidence, handed to \<^verbatim>\<open>speakExpression\<close> and written above the box.
  \<^verbatim>\<open>Number(expressionsObj[maxExpression]) || 0\<close> is the score of the label, 0 when
  it is missing.
\<close>

definition expressionStep :: "face list \<Rightarrow> state \<Rightarrow> error + state" where
  "expressionStep resized s =
     (case resized of
        [] \<Rightarrow> Inr (s\<lparr>expression := ''No face detected'', lastSpokenExpression := ''''\<rparr>)
      | f # _ \<Rightarrow>
          (case maxExpression (expressions f) of
             Inl e \<Rightarrow> Inl e
           | Inr m \<Rightarrow>
               (let confidence = toFixed2 (score (expressions f) m * 100);
                    label = m @ '' ('' @ confidence @ ''%)'';
                    s1 = speakExpression m (s\<lparr>expression := label\<rparr>)
                in case box f of (x, y, w, h) \<Rightarrow>
                     Inr (s1\<lparr>canvas := paint [FillText label ''blue'' ''16px Arial'' x (y - 10)]
                                          (canvas s1)\<rparr>))))"

section \<open>The detection loop\<close>

text \<open>
  What one iteration receives: the outcome of the face detection call (its result after
  \<^verbatim>\<open>faceapi.resizeResults\<close>) and of \<^verbatim>\<open>cocoModel.detect\<close>; \<^verbatim>\<open>Inl\<close> is a rejected
  promise.
\<close>

record frame =
  faces :: "error + face list"
  objects :: "error + prediction list"

text \<open>
  One call of \<^verbatim>\<open>detect\<close>. The guard of line 105 returns without
  \<^verbatim>\<open>requestAnimationFrame\<close>; a rejected \<^verbatim>\<open>await\<close> or a thrown error rejects the
  promise of \<^verbatim>\<open>detect\<close> at that point, which nothing catches; only the last line
  schedules the next call.
\<close>

definition detect :: "loop \<Rightarrow> frame \<Rightarrow> state \<Rightarrow> loop \<times> state" where
  "detect lp fr s =
     (if \<not> lp_modelsLoaded lp \<or> \<not> lp_cocoModel lp \<or> paused (video s) \<or> ended (video s)
      then (lp\<lparr>lp_status := Returned\<rparr>, s)
      else
        (case faces fr of
           Inl e \<Rightarrow> (lp\<lparr>lp_status := Rejected e\<rparr>, s)
         | Inr resized \<Rightarrow>
             (let s1 = drawFaces resized s
              in case expressionStep resized s1 of
                   Inl e \<Rightarrow> (lp\<lparr>lp_status := Rejected e\<rparr>, s1)
                 | Inr s2 \<Rightarrow>
                     (case objects fr of
                        Inl e \<Rightarrow> (lp\<lparr>lp_status := Rejected e\<rparr>, s2)
                      | Inr predictions \<Rightarrow>
                          (lp\<lparr>lp_status := Scheduled\<rparr>, drawPredictions predictions s2)))))"

text \<open>
  \<^verbatim>\<open>detectLoop\<close>: reads both refs (a null ref throws), sizes the overlay, and makes
  the first call of a new \<^verbatim>\<open>detect\<close> closure over the values of the render that
  \<^verbatim>\<open>detectLoop\<close> belongs to.
\<close>

definition detectLoop :: "closure \<Rightarrow> frame \<Rightarrow> state \<Rightarrow> error + state" where
  "detectLoop cl fr s =
     (if \<not> mounted s then Inl TypeError
      else
        (let displaySize = (videoWidth (video s), videoHeight (video s));
             s1 = s\<lparr>canvas := matchDimensions displaySize (canvas s)\<rparr>;
             lp = \<lparr>lp_modelsLoaded = cl_modelsLoaded cl, lp_cocoModel = cl_cocoModel cl,
                   lp_displaySize = displaySize, lp_status = Scheduled\<rparr>
         in case detect lp fr s1 of (lp', s2) \<Rightarrow> Inr (s2\<lparr>loops := loops s2 @ [lp']\<rparr>)))"

text \<open>The browser runs the callback of loop \<^verbatim>\<open>i\<close>, if that loop has one scheduled.\<close>

definition animationFrame :: "nat \<Rightarrow> frame \<Rightarrow> state \<Rightarrow> state" where
  "animationFrame i fr s =
     (if i < length (loops s) \<and> lp_status (loops s ! i) = Scheduled
      then (case detect (loops s ! i) fr s of (lp', s') \<Rightarrow> s'\<lparr>loops := (loops s')[i := lp']\<rparr>)
      else s)"

definition activeLoops :: "state \<Rightarrow> nat" where
  "activeLoops s = length (filter (\<lambda>lp. lp_status lp = Scheduled) (loops s))"

section \<open>Camera lifecycle\<close>

text \<open>
  \<^verbatim>\<open>startCamera\<close>, as a function of the render \<^verbatim>\<open>cl\<close> whose closure is called, of
  what \<^verbatim>\<open>getUserMedia\<close> answered and of whether \<^verbatim>\<open>play\<close> rejected. A granted
  stream has live tracks from then on. There is no test of \<^verbatim>\<open>isCameraOn\<close>: the only
  guard is the one on \<^verbatim>\<open>videoRef.current\<close>. Every failure ends in the
  \<^verbatim>\<open>catch\<close>, which writes to the console and nothing else. A resolved \<^verbatim>\<open>play\<close>
  leaves the element playing, with the frame size of the stream.
\<close>

definition startCamera ::
  "closure \<Rightarrow> error + media_stream \<Rightarrow> error option \<Rightarrow> frame \<Rightarrow> state \<Rightarrow> state" where
  "startCamera cl acquired played fr s =
     (case acquired of
        Inl e \<Rightarrow> s\<lparr>console := console s @ [LogCameraError e]\<rparr>
      | Inr stream \<Rightarrow>
          (let s1 = s\<lparr>liveTracks := liveTracks s \<union> set (tracks stream)\<rparr>
           in if \<not> mounted s1 then s1
              else
                (let s2 = s1\<lparr>video := (video s1)\<lparr>srcObject := Some stream\<rparr>\<rparr>
                 in case played of
                      Some e \<Rightarrow> s2\<lparr>console := console s2 @ [LogCameraError e]\<rparr>
                    | None \<Rightarrow>
                        (let s3 = s2\<lparr>video := (video s2)\<lparr>paused := False,
                                         videoWidth := frameWidth stream,
                                         videoHeight := frameHeight stream\<rparr>,
                                       isCameraOn := True,
                                       statusMessage := ''Camera started''\<rparr>
                         in case detectLoop cl fr s3 of
                              Inl e \<Rightarrow> s3\<lparr>console := console s3 @ [LogCameraError e]\<rparr>
                            | Inr s4 \<Rightarrow> s4))))"

text \<open>
  \<^verbatim>\<open>stopCamera\<close>. Only the release of the stream is guarded; the four assignments that
  follow are not. Assigning null to \<^verbatim>\<open>srcObject\<close> leaves the element paused.
\<close>

definition stopCamera :: "state \<Rightarrow> state" where
  "stopCamera s =
     (let s1 = (if mounted s
                then (case srcObject (video s) of
                        None \<Rightarrow> s
                      | Some stream \<Rightarrow>
                          s\<lparr>liveTracks := liveTracks s - set (tracks stream),
                            video := (video s)\<lparr>srcObject := None, paused := True\<rparr>\<rparr>)
                else s);
          s2 = s1\<lparr>isCameraOn := False,
                 statusMessage := ''Camera stopped'',
                 expression := '''',
                 lastSpokenExpression := ''''\<rparr>
      in if mounted s2 then s2\<lparr>canvas := clearCanvas (canvas s2)\<rparr> else s2)"

section \<open>Voice commands\<close>

text \<open>
  A recognition event is the list of its results, each the list of the transcripts of
  its alternatives. \<^verbatim>\<open>event.results[event.results.length - 1][0].transcript\<close> is
  there when the last result has an alternative; otherwise the handler throws before
  it does anything.
\<close>

definition transcript_of :: "string list list \<Rightarrow> string option" where
  "transcript_of results =
     (if results = [] then None
      else (case last results of [] \<Rightarrow> None | t # _ \<Rightarrow> Some t))"

text \<open>
  The handler is installed once, by an effect with no dependencies: the
  \<^verbatim>\<open>startCamera\<close> and \<^verbatim>\<open>stopCamera\<close> it calls are those of the first render.
\<close>

definition onresult ::
  "string list list \<Rightarrow> error + media_stream \<Rightarrow> error option \<Rightarrow> frame \<Rightarrow> state \<Rightarrow> state" where
  "onresult results acquired played fr s =
     (case transcript_of results of
        None \<Rightarrow> s
      | Some t \<Rightarrow>
          (let command = toLowerCase (trim t);
               s1 = s\<lparr>console := console s @ [LogVoiceCommand command]\<rparr>
           in if includes_str command ''start camera''
              then startCamera firstRender acquired played fr s1
              else if includes_str command ''stop camera'' then stopCamera s1
              else s1))"

text \<open>The two buttons call the functions of the current render.\<close>

definition clickStart :: "error + media_stream \<Rightarrow> error option \<Rightarrow> frame \<Rightarrow> state \<Rightarrow> state" where
  "clickStart acquired played fr s = startCamera (currentRender s) acquired played fr s"

definition clickStop :: "state \<Rightarrow> state" where
  "clickStop s = stopCamera s"

text \<open>
  A loop over the frames of successive animation frames: the callback runs for as long as
  the previous call scheduled it, and the frames that come after the loop has stopped
  are never looked at.
\<close>

fun runLoop :: "loop \<Rightarrow> frame list \<Rightarrow> state \<Rightarrow> loop \<times> state" where
  "runLoop lp [] s = (lp, s)"
| "runLoop lp (fr # frs) s =
     (if lp_status lp = Scheduled
      then (case detect lp fr s of (lp', s') \<Rightarrow> runLoop lp' frs s')
      else (lp, s))"

section \<open>The specification's vocabulary\<close>

text \<open>
  The definitions of this section follow the words of the specification, not the code;
  the theorems below compare the code with them.
\<close>

datatype voice_action = StartCamera | StopCamera | Unknown

text \<open>
  Classification in the order the specification gives: look for \<^verbatim>\<open>start camera\<close>
  first and for \<^verbatim>\<open>stop camera\<close> second, in the normal form of the transcript. The
  normal form taken here is the one the code computes, trimmed and lower-cased: white
  space inside the transcript is left as it is.
\<close>

definition spec_classify :: "string \<Rightarrow> voice_action" where
  "spec_classify t =
     (let normalized = toLowerCase (trim t)
      in if includes_str normalized ''start camera'' then StartCamera
         else if includes_str normalized ''stop camera'' then StopCamera
         else Unknown)"

definition spec_perform ::
  "voice_action \<Rightarrow> error + media_stream \<Rightarrow> error option \<Rightarrow> frame \<Rightarrow> state \<Rightarrow> state" where
  "spec_perform a acquired played fr s =
     (case a of
        StartCamera \<Rightarrow> startCamera firstRender acquired played fr s
      | StopCamera \<Rightarrow> stopCamera s
      | Unknown \<Rightarrow> s)"

text \<open>
  White-space insensitivity as the specification words it: two transcripts are the same
  up to case and white space when they have the same normal form, in which every run of
  white space counts as one space, white space at either end is dropped and letters are
  lower-cased.
\<close>

fun squeeze :: "bool \<Rightarrow> string \<Rightarrow> string" where
  "squeeze inRun [] = []"
| "squeeze inRun (c # cs) =
     (if isWhiteSpace c
      then (if inRun then squeeze True cs else CHR '' '' # squeeze True cs)
      else c # squeeze False cs)"

definition spec_normalize :: "string \<Rightarrow> string" where
  "spec_normalize t = toLowerCase (trim (squeeze False t))"

text \<open>
  The arg-max as the specification words it: \<^verbatim>\<open>l\<close> is a label of the mapping and no
  label of the mapping has a greater score.
\<close>

definition spec_argmax :: "(string \<times> real) list \<Rightarrow> string \<Rightarrow> bool" where
  "spec_argmax scores l =
     (case map_of scores l of
        None \<Rightarrow> False
      | Some v \<Rightarrow>
          list_all (\<lambda>k. case map_of scores k of None \<Rightarrow> True | Some w \<Rightarrow> w \<le> v)
            (map fst scores))"

text \<open>
  The debouncer as the specification words it. A frame is \<^verbatim>\<open>None\<close> when it has no
  face and \<^verbatim>\<open>Some l\<close> when \<^verbatim>\<open>l\<close> is the selected label of its first face; the state
  is the last spoken label or none. An utterance is due exactly when the label differs
  from the last spoken one; a frame without a face resets the state and is silent.
\<close>

fun spec_utterances :: "string option \<Rightarrow> string option list \<Rightarrow> string list" where
  "spec_utterances lastSpoken [] = []"
| "spec_utterances lastSpoken (None # rest) = spec_utterances None rest"
| "spec_utterances lastSpoken (Some l # rest) =
     (if Some l \<noteq> lastSpoken then [''You look '' @ l] else [])
       @ spec_utterances (Some l) rest"

definition utteranceEvents :: "string list \<Rightarrow> speech_event list" where
  "utteranceEvents us = concat (map (\<lambda>u. [Cancel, Speak u]) us)"

section \<open>The code's state and inputs, read for the comparison\<close>

text \<open>
  The definitions of this section are taken from the code. The last spoken label is the
  content of the ref, the empty string being the code's none. The label of a frame is
  the one the code selects with \<^verbatim>\<open>maxExpression\<close> for the first face; that it is an
  arg-max is not part of the definition, it is proved.
\<close>

definition lastLabel :: "state \<Rightarrow> string option" where
  "lastLabel s =
     (if lastSpokenExpression s = '''' then None else Some (lastSpokenExpression s))"

definition selectedLabel :: "face list \<Rightarrow> string option" where
  "selectedLabel resized =
     (case resized of
        [] \<Rightarrow> None
      | f # _ \<Rightarrow> (case maxExpression (expressions f) of Inl e \<Rightarrow> None | Inr l \<Rightarrow> Some l))"

definition frameLabel :: "frame \<Rightarrow> string option" where
  "frameLabel fr = (case faces fr of Inl e \<Rightarrow> None | Inr resized \<Rightarrow> selectedLabel resized)"

text \<open>
  A frame of the data model: both providers answered, and the first face, if there is
  one, has a score for at least one label and no label is the empty string.
\<close>

definition wellFormedFaces :: "face list \<Rightarrow> bool" where
  "wellFormedFaces resized =
     (case resized of
        [] \<Rightarrow> True
      | f # _ \<Rightarrow> expressions f \<noteq> [] \<and> '''' \<notin> set (map fst (expressions f)))"

definition frameOk :: "frame \<Rightarrow> bool" where
  "frameOk fr =
     (case faces fr of
        Inl e \<Rightarrow> False
      | Inr resized \<Rightarrow>
          wellFormedFaces resized \<and> (case objects fr of Inl e \<Rightarrow> False | Inr ps \<Rightarrow> True))"

section \<open>Concrete inputs used by the examples\<close>

definition faceWith :: "(string \<times> real) list \<Rightarrow> face" where
  "faceWith scores = \<lparr>box = (100, 80, 120, 120), landmarks = [], expressions = scores\<rparr>"

definition frameOf :: "face list \<Rightarrow> frame" where
  "frameOf resized = \<lparr>faces = Inr resized, objects = Inr []\<rparr>"

definition webcam :: "track \<Rightarrow> media_stream" where
  "webcam t = \<lparr>tracks = [t], frameWidth = 640, frameHeight = 480\<rparr>"

text \<open>The component once its models have loaded, camera off.\<close>

definition ready_state :: state where
  "ready_state = loadModels None initial_state"

text \<open>The camera started from the button, with nobody in front of it.\<close>

definition camera_on :: state where
  "camera_on = clickStart (Inr (webcam 1)) None (frameOf []) ready_state"

text \<open>
  The scenario of the specification: a happy face, a face that is still happy, nobody,
  a sad face.
\<close>

definition scenario :: "frame list" where
  "scenario =
     [frameOf [faceWith [(''happy'', 0.91), (''neutral'', 0.05), (''sad'', 0.04)]],
      frameOf [faceWith [(''happy'', 0.60), (''surprised'', 0.40)]],
      frameOf [],
      frameOf [faceWith [(''sad'', 0.70)]]]"

text \<open>A face whose greatest score belongs to the last label.\<close>

definition late_maximum :: frame where
  "late_maximum =
     frameOf [faceWith [(''neutral'', 0.10), (''sad'', 0.15), (''surprised'', 0.75)]]"

section \<open>Selection of the expression label\<close>

text \<open>
  The fold of \<^verbatim>\<open>reduce\<close> over a non-empty key list ends on the last key whose score
  is maximal: the accumulator survives a comparison only when it is strictly greater.
\<close>

lemma foldl_pick_last_max:
  assumes "xs \<noteq> []"
  shows "\<exists>i<length xs. foldl (pick obj) (hd xs) (tl xs) = xs ! i
      \<and> (\<forall>j<length xs. score obj (xs ! j) \<le> score obj (xs ! i))
      \<and> (\<forall>j<length xs. i < j \<longrightarrow> score obj (xs ! j) < score obj (xs ! i))"
  using assms
proof (induction xs rule: rev_nonempty_induct)
  case (single x)
  show ?case by simp
next
  case (snoc b xs)
  then obtain i where i: "i < length xs"
    and r: "foldl (pick obj) (hd xs) (tl xs) = xs ! i"
    and mx: "\<forall>j<length xs. score obj (xs ! j) \<le> score obj (xs ! i)"
    and lst: "\<forall>j<length xs. i < j \<longrightarrow> score obj (xs ! j) < score obj (xs ! i)"
    by blast
  let ?ys = "xs @ [b]"
  let ?n = "length xs"
  have fold: "foldl (pick obj) (hd ?ys) (tl ?ys) = pick obj (xs ! i) b"
    using snoc.hyps r by simp
  have old: "?ys ! j = xs ! j" if "j < ?n" for j
    using that by (simp add: nth_append)
  have new: "?ys ! ?n = b" by simp
  have split: "j < ?n \<or> j = ?n" if "j < length ?ys" for j
    using that by auto
  show ?case
  proof (cases "score obj (xs ! i) > score obj b")
    case True
    have "foldl (pick obj) (hd ?ys) (tl ?ys) = ?ys ! i"
      using fold True old[OF i] by (simp add: pick_def)
    moreover have "score obj (?ys ! j) \<le> score obj (?ys ! i)" if "j < length ?ys" for j
      using split[OF that] mx True old[OF i] old[of j] new by auto
    moreover have "score obj (?ys ! j) < score obj (?ys ! i)" if "j < length ?ys" "i < j" for j
      using split[OF that(1)] that(2) lst True old[OF i] old[of j] new by auto
    moreover have "i < length ?ys" using i by simp
    ultimately show ?thesis by blast
  next
    case False
    have "foldl (pick obj) (hd ?ys) (tl ?ys) = ?ys ! ?n"
      using fold False by (simp add: pick_def)
    moreover have "score obj (?ys ! j) \<le> score obj (?ys ! ?n)" if "j < length ?ys" for j
    proof -
      from split[OF that] show ?thesis
      proof
        assume j: "j < ?n"
        then have "score obj (xs ! j) \<le> score obj (xs ! i)" using mx by simp
        then show ?thesis using False old[OF j] by simp
      next
        assume "j = ?n"
        then show ?thesis by simp
      qed
    qed
    moreover have "score obj (?ys ! j) < score obj (?ys ! ?n)" if "j < length ?ys" "?n < j" for j
      using that by simp
    moreover have "?n < length ?ys" by simp
    ultimately show ?thesis by blast
  qed
qed

lemma maxExpression_fold:
  assumes "obj \<noteq> []"
  shows "maxExpression obj = Inr (foldl (pick obj) (hd (map fst obj)) (tl (map fst obj)))"
  using assms by (cases obj) (simp_all add: maxExpression_def)

text \<open>
  Claim C4, as the code has it. For every non-empty \<^verbatim>\<open>expressions\<close> object of the
  first face the selected label is one of its keys, no key has a greater score, and every
  key that comes after the selected one has a strictly smaller score: among the labels
  that share the maximum, the one that comes last in key order is selected, because the
  accumulator of the scan is kept only when its score is strictly greater.
\<close>

theorem maxExpression_last_maximum:
  assumes "obj \<noteq> []"
  shows "\<exists>i<length obj. maxExpression obj = Inr (fst (obj ! i))
      \<and> (\<forall>j<length obj. score obj (fst (obj ! j)) \<le> score obj (fst (obj ! i)))
      \<and> (\<forall>j<length obj. i < j \<longrightarrow> score obj (fst (obj ! j)) < score obj (fst (obj ! i)))"
proof -
  let ?ks = "map fst obj"
  have ne: "?ks \<noteq> []" using assms by simp
  have nth: "?ks ! j = fst (obj ! j)" if "j < length obj" for j
    using that by simp
  from foldl_pick_last_max[OF ne, of obj]
  obtain i where i: "i < length obj"
    and r: "foldl (pick obj) (hd ?ks) (tl ?ks) = ?ks ! i"
    and le: "\<forall>j<length obj. score obj (?ks ! j) \<le> score obj (?ks ! i)"
    and lt: "\<forall>j<length obj. i < j \<longrightarrow> score obj (?ks ! j) < score obj (?ks ! i)"
    by auto
  have "maxExpression obj = Inr (fst (obj ! i))"
    using maxExpression_fold[OF assms] r nth[OF i] by simp
  moreover have "\<forall>j<length obj. score obj (fst (obj ! j)) \<le> score obj (fst (obj ! i))"
    using le nth i by simp
  moreover have "\<forall>j<length obj. i < j \<longrightarrow> score obj (fst (obj ! j)) < score obj (fst (obj ! i))"
    using lt nth i by simp
  ultimately show ?thesis using i by blast
qed

text \<open>Three labels, the last two tied at the maximum: the later one is selected.\<close>

theorem maxExpression_last_maximum_witness:
  "[(''neutral'', 0.2), (''happy'', 0.4), (''sad'', 0.4 :: real)] \<noteq> []
   \<and> maxExpression [(''neutral'', 0.2), (''happy'', 0.4), (''sad'', 0.4)] = Inr ''sad''
   \<and> score [(''neutral'', 0.2), (''happy'', 0.4), (''sad'', 0.4)] ''happy''
       = score [(''neutral'', 0.2), (''happy'', 0.4), (''sad'', 0.4)] ''sad''"
  using maxExpression_last_maximum [of "[(''neutral'', 0.2), (''happy'', 0.4), (''sad'', 0.4)]"]
  by (simp add: maxExpression_def pick_def score_def)

text \<open>
  Against the claim as the specification states it (the earlier label wins a tie): with
  \<^verbatim>\<open>happy\<close> before \<^verbatim>\<open>sad\<close> and equal scores, \<^verbatim>\<open>sad\<close> is selected.
\<close>

theorem maxExpression_tie_counterexample:
  "maxExpression [(''happy'', 0.5), (''sad'', 0.5)] = Inr ''sad''
   \<and> score [(''happy'', 0.5), (''sad'', 0.5)] ''happy''
       = score [(''happy'', 0.5), (''sad'', 0.5)] ''sad''
   \<and> maxExpression [(''happy'', 0.5), (''sad'', 0.5)] \<noteq> Inr ''happy''"
  by (simp add: maxExpression_def pick_def score_def)

section \<open>Evaluation of the examples\<close>

lemmas overlay_defs = clearRect_def clearCanvas_def paint_def matchDimensions_def drawFaces_def
  drawPrediction_def drawPredictions_def

lemmas handler_defs = startCamera_def stopCamera_def detectLoop_def detect_def expressionStep_def
  speakExpression_def clickStart_def clickStop_def currentRender_def firstRender_def
  loadModels_def animationFrame_def

lemmas example_defs = faceWith_def frameOf_def webcam_def

lemma ready_state_eval:
  "ready_state = initial_state\<lparr>cocoModel := True, modelsLoaded := True,
                               console := [LogModelsLoaded]\<rparr>"
  by (simp add: ready_state_def loadModels_def initial_state_def)

lemma camera_on_eval:
  "camera_on = initial_state\<lparr>
       isCameraOn := True, statusMessage := ''Camera started'',
       expression := ''No face detected'', modelsLoaded := True, cocoModel := True,
       video := \<lparr>srcObject = Some (webcam 1), paused = False, ended = False,
                 videoWidth = 640, videoHeight = 480\<rparr>,
       canvas := \<lparr>cwidth = 640, cheight = 480,
                  painted = [DrawDetections [], DrawFaceLandmarks [], DrawFaceExpressions []]\<rparr>,
       liveTracks := {1}, console := [LogModelsLoaded],
       loops := [\<lparr>lp_modelsLoaded = True, lp_cocoModel = True,
                  lp_displaySize = (640, 480), lp_status = Scheduled\<rparr>]\<rparr>"
  by (simp add: camera_on_def ready_state_eval initial_state_def handler_defs overlay_defs
      example_defs)

lemma stop_ready_eval:
  "stopCamera ready_state = ready_state\<lparr>statusMessage := ''Camera stopped''\<rparr>"
  by (simp add: ready_state_eval initial_state_def stopCamera_def overlay_defs)

section \<open>What one iteration leaves alone\<close>

lemma maxExpression_key:
  assumes "obj \<noteq> []"
  shows "\<exists>l. maxExpression obj = Inr l \<and> l \<in> set (map fst obj)"
proof -
  have ne: "map fst obj \<noteq> []" using assms by simp
  have "foldl (pick obj) a ks \<in> set (a # ks)" for a ks
    by (induction ks arbitrary: a) (auto simp: pick_def)
  from this[of "hd (map fst obj)" "tl (map fst obj)"] ne
  have "foldl (pick obj) (hd (map fst obj)) (tl (map fst obj)) \<in> set (map fst obj)"
    by (metis list.collapse)
  moreover have "maxExpression obj = Inr (foldl (pick obj) (hd (map fst obj)) (tl (map fst obj)))"
    using assms by (cases obj) (simp_all add: maxExpression_def)
  ultimately show ?thesis by blast
qed

lemma expressionStep_empty:
  "expressionStep [] s = Inr (s\<lparr>expression := ''No face detected'', lastSpokenExpression := ''''\<rparr>)"
  by (simp add: expressionStep_def)

lemma expressionStep_face:
  assumes "maxExpression (expressions f) = Inr l"
  shows "\<exists>s'. expressionStep (f # fs) s = Inr s'
      \<and> speech s' = speech s @ (if l \<noteq> lastSpokenExpression s
                                  then [Cancel, Speak (''You look '' @ l)] else [])
      \<and> lastSpokenExpression s' = l
      \<and> expression s' = l @ '' ('' @ toFixed2 (score (expressions f) l * 100) @ ''%)''"
  using assms
  by (cases "box f") (simp add: expressionStep_def speakExpression_def Let_def)

lemma expressionStep_frame:
  assumes "expressionStep fs s = Inr s'"
  shows "loops s' = loops s \<and> video s' = video s \<and> liveTracks s' = liveTracks s
       \<and> isCameraOn s' = isCameraOn s \<and> statusMessage s' = statusMessage s
       \<and> mounted s' = mounted s \<and> console s' = console s
       \<and> modelsLoaded s' = modelsLoaded s \<and> cocoModel s' = cocoModel s"
  using assms
  by (auto simp: expressionStep_def speakExpression_def Let_def
           split: list.splits sum.splits prod.splits if_splits)

lemma drawFaces_fields:
  "loops (drawFaces fs s) = loops s \<and> video (drawFaces fs s) = video s
   \<and> liveTracks (drawFaces fs s) = liveTracks s \<and> isCameraOn (drawFaces fs s) = isCameraOn s
   \<and> statusMessage (drawFaces fs s) = statusMessage s \<and> mounted (drawFaces fs s) = mounted s
   \<and> console (drawFaces fs s) = console s \<and> speech (drawFaces fs s) = speech s
   \<and> lastSpokenExpression (drawFaces fs s) = lastSpokenExpression s
   \<and> expression (drawFaces fs s) = expression s
   \<and> modelsLoaded (drawFaces fs s) = modelsLoaded s \<and> cocoModel (drawFaces fs s) = cocoModel s"
  by (simp add: drawFaces_def)

lemma drawPredictions_fields:
  "loops (drawPredictions ps s) = loops s \<and> video (drawPredictions ps s) = video s
   \<and> liveTracks (drawPredictions ps s) = liveTracks s
   \<and> isCameraOn (drawPredictions ps s) = isCameraOn s
   \<and> statusMessage (drawPredictions ps s) = statusMessage s
   \<and> mounted (drawPredictions ps s) = mounted s
   \<and> console (drawPredictions ps s) = console s \<and> speech (drawPredictions ps s) = speech s
   \<and> lastSpokenExpression (drawPredictions ps s) = lastSpokenExpression s
   \<and> expression (drawPredictions ps s) = expression s
   \<and> modelsLoaded (drawPredictions ps s) = modelsLoaded s
   \<and> cocoModel (drawPredictions ps s) = cocoModel s"
  by (simp add: drawPredictions_def)

lemma detect_frame:
  assumes "detect lp fr s = (lp', s')"
  shows "loops s' = loops s \<and> video s' = video s \<and> liveTracks s' = liveTracks s
       \<and> isCameraOn s' = isCameraOn s \<and> statusMessage s' = statusMessage s
       \<and> mounted s' = mounted s \<and> console s' = console s
       \<and> modelsLoaded s' = modelsLoaded s \<and> cocoModel s' = cocoModel s"
  using assms expressionStep_frame[of _ "drawFaces _ s"] drawFaces_fields[of _ s]
    drawPredictions_fields
  by (auto simp: detect_def Let_def split: if_splits sum.splits) 

lemma detect_lp:
  assumes "detect lp fr s = (lp', s')"
  shows "\<exists>st. lp' = lp\<lparr>lp_status := st\<rparr>"
  using assms by (auto simp: detect_def Let_def split: if_splits sum.splits) 

lemma expressionStep_wf:
  assumes "wellFormedFaces fs"
  shows "\<exists>s'. expressionStep fs s = Inr s'"
proof (cases fs)
  case Nil
  then show ?thesis by (simp add: expressionStep_empty)
next
  case (Cons f rest)
  then have "expressions f \<noteq> []" using assms by (simp add: wellFormedFaces_def)
  then obtain l where "maxExpression (expressions f) = Inr l"
    using maxExpression_key by blast
  from expressionStep_face[OF this] show ?thesis using Cons by blast
qed

lemma detect_ok:
  assumes "lp_modelsLoaded lp" "lp_cocoModel lp" "\<not> paused (video s)" "\<not> ended (video s)"
    and "frameOk fr"
  shows "\<exists>s'. detect lp fr s = (lp\<lparr>lp_status := Scheduled\<rparr>, s')"
proof -
  from assms(5) obtain fs ps where f: "faces fr = Inr fs" and o: "objects fr = Inr ps"
    and wf: "wellFormedFaces fs"
    by (auto simp: frameOk_def split: sum.splits)
  from expressionStep_wf[OF wf] obtain s2 where "expressionStep fs (drawFaces fs s) = Inr s2"
    by blast
  then show ?thesis using assms(1-4) f o by (simp add: detect_def)
qed

section \<open>Starting the camera\<close>

lemma startCamera_granted:
  assumes "mounted s"
  shows "\<exists>st s2. startCamera cl (Inr stream) None fr s =
            s2\<lparr>loops := loops s @ [\<lparr>lp_modelsLoaded = cl_modelsLoaded cl,
                                     lp_cocoModel = cl_cocoModel cl,
                                     lp_displaySize = (frameWidth stream, frameHeight stream),
                                     lp_status = st\<rparr>]\<rparr>
          \<and> video s2 = (video s)\<lparr>srcObject := Some stream, paused := False,
                                 videoWidth := frameWidth stream,
                                 videoHeight := frameHeight stream\<rparr>
          \<and> liveTracks s2 = liveTracks s \<union> set (tracks stream)
          \<and> isCameraOn s2 \<and> statusMessage s2 = ''Camera started''
          \<and> (cl_modelsLoaded cl \<and> cl_cocoModel cl \<and> \<not> ended (video s) \<and> frameOk fr
               \<longrightarrow> st = Scheduled)"
proof -
  define s3 where "s3 = s\<lparr>liveTracks := liveTracks s \<union> set (tracks stream),
      video := (video s)\<lparr>srcObject := Some stream, paused := False,
                         videoWidth := frameWidth stream, videoHeight := frameHeight stream\<rparr>,
      isCameraOn := True, statusMessage := ''Camera started''\<rparr>"
  define size where "size = (frameWidth stream, frameHeight stream)"
  define lp where "lp = \<lparr>lp_modelsLoaded = cl_modelsLoaded cl, lp_cocoModel = cl_cocoModel cl,
      lp_displaySize = size, lp_status = Scheduled\<rparr>"
  define s4 where "s4 = s3\<lparr>canvas := matchDimensions size (canvas s3)\<rparr>"
  obtain lp' s5 where d: "detect lp fr s4 = (lp', s5)" by (cases "detect lp fr s4")
  have start: "startCamera cl (Inr stream) None fr s = s5\<lparr>loops := loops s5 @ [lp']\<rparr>"
    using assms d
    by (simp add: startCamera_def detectLoop_def Let_def s3_def s4_def lp_def size_def)
  from detect_frame[OF d] have fr5: "loops s5 = loops s" "video s5 = video s3"
    "liveTracks s5 = liveTracks s3" "isCameraOn s5 = isCameraOn s3"
    "statusMessage s5 = statusMessage s3"
    by (simp_all add: s4_def s3_def)
  from detect_lp[OF d] obtain st where lp': "lp' = lp\<lparr>lp_status := st\<rparr>" by blast
  have sched: "st = Scheduled"
    if "cl_modelsLoaded cl" "cl_cocoModel cl" "\<not> ended (video s)" "frameOk fr"
  proof -
    have "\<exists>s'. detect lp fr s4 = (lp\<lparr>lp_status := Scheduled\<rparr>, s')"
      using that by (intro detect_ok) (simp_all add: lp_def s4_def s3_def)
    then show ?thesis using d lp' by (auto simp: lp_def)
  qed
  show ?thesis
    using start fr5 lp' sched
    by (intro exI[of _ st] exI[of _ s5]) (simp add: lp_def size_def s3_def)
qed

text \<open>
  Claim C1, as the code has it. \<^verbatim>\<open>startCamera\<close> does not look at the session:
  whenever the device grants a stream and playback starts (the video element being
  mounted), the call attaches the new stream in place of whatever was attached, keeps the
  tracks that were live (those of a stream it replaces are not stopped), sets the session
  to On with the status \<^verbatim>\<open>Camera started\<close>, and begins one more detection loop
  beside the loops that exist, which it leaves as they are. When the calling render has
  its models and the frame is well formed, that new loop is scheduled, so the number of
  scheduled loops grows by one with every such call, also when the camera is already On.
\<close>

theorem startCamera_no_guard:
  assumes "mounted s"
  shows "srcObject (video (startCamera cl (Inr stream) None fr s)) = Some stream
       \<and> liveTracks (startCamera cl (Inr stream) None fr s) = liveTracks s \<union> set (tracks stream)
       \<and> isCameraOn (startCamera cl (Inr stream) None fr s)
       \<and> statusMessage (startCamera cl (Inr stream) None fr s) = ''Camera started''
       \<and> length (loops (startCamera cl (Inr stream) None fr s)) = Suc (length (loops s))
       \<and> take (length (loops s)) (loops (startCamera cl (Inr stream) None fr s)) = loops s
       \<and> (cl_modelsLoaded cl \<and> cl_cocoModel cl \<and> \<not> ended (video s) \<and> frameOk fr
            \<longrightarrow> activeLoops (startCamera cl (Inr stream) None fr s) = Suc (activeLoops s))"
proof -
  from startCamera_granted[OF assms, of cl stream fr]
  obtain st s2 where eq: "startCamera cl (Inr stream) None fr s =
            s2\<lparr>loops := loops s @ [\<lparr>lp_modelsLoaded = cl_modelsLoaded cl,
                                     lp_cocoModel = cl_cocoModel cl,
                                     lp_displaySize = (frameWidth stream, frameHeight stream),
                                     lp_status = st\<rparr>]\<rparr>"
    and v: "video s2 = (video s)\<lparr>srcObject := Some stream, paused := False,
                                 videoWidth := frameWidth stream,
                                 videoHeight := frameHeight stream\<rparr>"
    and rest: "liveTracks s2 = liveTracks s \<union> set (tracks stream)"
      "isCameraOn s2" "statusMessage s2 = ''Camera started''"
    and sched: "cl_modelsLoaded cl \<and> cl_cocoModel cl \<and> \<not> ended (video s) \<and> frameOk fr
               \<longrightarrow> st = Scheduled"
    by blast
  show ?thesis
    unfolding eq using v rest sched by (simp add: activeLoops_def)
qed

text \<open>A second press of the start button while the camera is On: two streams, two loops.\<close>

theorem startCamera_no_guard_witness:
  "mounted camera_on \<and> isCameraOn camera_on \<and> activeLoops camera_on = 1
   \<and> liveTracks camera_on = {1}
   \<and> srcObject (video (clickStart (Inr (webcam 2)) None (frameOf []) camera_on)) = Some (webcam 2)
   \<and> liveTracks (clickStart (Inr (webcam 2)) None (frameOf []) camera_on) = {1, 2}
   \<and> activeLoops (clickStart (Inr (webcam 2)) None (frameOf []) camera_on) = 2"
  using startCamera_no_guard [of camera_on "currentRender camera_on" "webcam 2" "frameOf []"]
  by (auto simp add: clickStart_def camera_on_eval initial_state_def currentRender_def activeLoops_def
      frameOk_def frameOf_def wellFormedFaces_def webcam_def)

text \<open>
  Against the claim as the specification states it (a start while On is a no-op): the
  second start changes the state, holds a second stream and runs a second loop.
\<close>

theorem startCamera_twice_counterexample:
  "isCameraOn camera_on \<and> activeLoops camera_on = 1
   \<and> clickStart (Inr (webcam 2)) None (frameOf []) camera_on \<noteq> camera_on
   \<and> srcObject (video (clickStart (Inr (webcam 2)) None (frameOf []) camera_on)) = Some (webcam 2)
   \<and> liveTracks (clickStart (Inr (webcam 2)) None (frameOf []) camera_on) = {1, 2}
   \<and> activeLoops (clickStart (Inr (webcam 2)) None (frameOf []) camera_on) = 2"
proof -
  have "clickStart (Inr (webcam 2)) None (frameOf []) camera_on =
     camera_on\<lparr>video := \<lparr>srcObject = Some (webcam 2), paused = False, ended = False,
                 videoWidth = 640, videoHeight = 480\<rparr>,
       liveTracks := {1, 2},
       loops := [\<lparr>lp_modelsLoaded = True, lp_cocoModel = True,
                  lp_displaySize = (640, 480), lp_status = Scheduled\<rparr>,
                 \<lparr>lp_modelsLoaded = True, lp_cocoModel = True,
                  lp_displaySize = (640, 480), lp_status = Scheduled\<rparr>]\<rparr>"
    by (simp add: camera_on_eval initial_state_def handler_defs overlay_defs example_defs
        insert_commute)
  then show ?thesis
    by (simp add: camera_on_eval initial_state_def activeLoops_def webcam_def)
qed

text \<open>
  Claim C8, as the code has it. When \<^verbatim>\<open>getUserMedia\<close> rejects, the call adds one
  line to the console and changes nothing else: the session stays as it was (Off when it
  was Off), no stream is attached, no loop is begun, and the status message and the whole
  rendered view are what they were before the call.
\<close>

theorem startCamera_device_unavailable:
  "startCamera cl (Inl e) played fr s = s\<lparr>console := console s @ [LogCameraError e]\<rparr>
   \<and> isCameraOn (startCamera cl (Inl e) played fr s) = isCameraOn s
   \<and> video (startCamera cl (Inl e) played fr s) = video s
   \<and> liveTracks (startCamera cl (Inl e) played fr s) = liveTracks s
   \<and> loops (startCamera cl (Inl e) played fr s) = loops s
   \<and> activeLoops (startCamera cl (Inl e) played fr s) = activeLoops s
   \<and> statusMessage (startCamera cl (Inl e) played fr s) = statusMessage s
   \<and> view (startCamera cl (Inl e) played fr s) = view s"
  by (simp add: startCamera_def activeLoops_def view_def statusText_def)

text \<open>Permission denied on the first press of the start button.\<close>

theorem startCamera_device_unavailable_witness:
  "isCameraOn (clickStart (Inl NotAllowedError) None (frameOf []) ready_state) = False
   \<and> loops (clickStart (Inl NotAllowedError) None (frameOf []) ready_state) = []
   \<and> console (clickStart (Inl NotAllowedError) None (frameOf []) ready_state)
       = [LogModelsLoaded, LogCameraError NotAllowedError]"
  using startCamera_device_unavailable
          [of "currentRender ready_state" NotAllowedError None "frameOf []" ready_state]
  by (simp add: clickStart_def ready_state_eval initial_state_def)

text \<open>
  Against the claim as the specification states it (the user is told of the failure by
  the status text): after a denied permission, and after a missing device, the status
  line still reads what it read before.
\<close>

theorem startCamera_silent_failure_counterexample:
  "statusText ready_state = ''Say 'start camera' or use the buttons''
   \<and> statusText (clickStart (Inl NotAllowedError) None (frameOf []) ready_state)
       = ''Say 'start camera' or use the buttons''
   \<and> statusText (clickStart (Inl NotFoundError) None (frameOf []) ready_state)
       = ''Say 'start camera' or use the buttons''
   \<and> view (clickStart (Inl NotAllowedError) None (frameOf []) ready_state) = view ready_state"
  by (simp add: clickStart_def startCamera_def ready_state_eval initial_state_def
      statusText_def view_def)

section \<open>Stopping the camera\<close>

lemma stopCamera_idem: "stopCamera (stopCamera s) = stopCamera s"
  by (cases "mounted s"; cases "srcObject (video s)")
     (simp_all add: stopCamera_def Let_def clearCanvas_def clearRect_def)

lemma stopCamera_statusText:
  "(statusText (stopCamera s) \<noteq> statusText s)
     = (modelsLoaded s \<and> statusMessage s \<noteq> ''Camera stopped'')"
proof -
  have "modelsLoaded (stopCamera s) = modelsLoaded s"
    "statusMessage (stopCamera s) = ''Camera stopped''"
    by (simp_all add: stopCamera_def Let_def split: option.split)
  then show ?thesis by (auto simp: statusText_def)
qed

text \<open>
  Claim C10, as the code has it. Every call of \<^verbatim>\<open>stopCamera\<close>, whatever the state,
  leaves the status message \<^verbatim>\<open>Camera stopped\<close>, the expression text empty, the last
  spoken label empty and the session Off. Whether that shows depends on the state: the
  status line that is rendered changes exactly when the models are loaded and the message
  was something else, and the rendered view changes exactly when the status line does, or
  the camera was On, or an expression text was shown. So a stop in the Off state is seen
  once the models are loaded and the message differs; while the models are loading the
  line reads \<^verbatim>\<open>Loading models...\<close> before and after, and a stop that follows a stop
  changes nothing at all.
\<close>

theorem stopCamera_unconditional:
  "statusMessage (stopCamera s) = ''Camera stopped''
   \<and> expression (stopCamera s) = ''''
   \<and> lastSpokenExpression (stopCamera s) = ''''
   \<and> isCameraOn (stopCamera s) = False
   \<and> (modelsLoaded s \<and> statusMessage s \<noteq> ''Camera stopped''
        \<longrightarrow> statusText (stopCamera s) \<noteq> statusText s \<and> stopCamera s \<noteq> s)
   \<and> ((statusText (stopCamera s) \<noteq> statusText s)
        = (modelsLoaded s \<and> statusMessage s \<noteq> ''Camera stopped''))
   \<and> ((view (stopCamera s) \<noteq> view s)
        = ((modelsLoaded s \<and> statusMessage s \<noteq> ''Camera stopped'')
           \<or> isCameraOn s \<or> expression s \<noteq> ''''))
   \<and> stopCamera (stopCamera s) = stopCamera s"
proof -
  have a: "statusMessage (stopCamera s) = ''Camera stopped''"
    by (simp add: stopCamera_def Let_def split: option.split)
  have b: "expression (stopCamera s) = ''''"
    by (simp add: stopCamera_def Let_def split: option.split)
  have c: "lastSpokenExpression (stopCamera s) = ''''"
    by (simp add: stopCamera_def Let_def split: option.split)
  have d: "isCameraOn (stopCamera s) = False"
    by (simp add: stopCamera_def Let_def split: option.split)
  note e = stopCamera_statusText[of s]
  have f: "stopCamera s \<noteq> s" if "statusText (stopCamera s) \<noteq> statusText s"
    using that by auto
  have g: "(view (stopCamera s) \<noteq> view s)
        = ((modelsLoaded s \<and> statusMessage s \<noteq> ''Camera stopped'')
           \<or> isCameraOn s \<or> expression s \<noteq> '''')"
    using b d e by (auto simp: view_def)
  show ?thesis using a b c d e f g stopCamera_idem[of s] by blast
qed

text \<open>
  The stop button pressed before the camera was ever started: seen once the models are
  loaded, not seen while they load.
\<close>

theorem stopCamera_unconditional_witness:
  "isCameraOn ready_state = False
   \<and> srcObject (video ready_state) = None
   \<and> statusText ready_state = ''Say 'start camera' or use the buttons''
   \<and> statusText (stopCamera ready_state) = ''Camera stopped''
   \<and> stopCamera ready_state \<noteq> ready_state
   \<and> view (stopCamera initial_state) = view initial_state"
  using stopCamera_unconditional [of ready_state] stopCamera_unconditional [of initial_state]
  by (simp add: ready_state_eval initial_state_def statusText_def stopCamera_def overlay_defs
      view_def)

text \<open>
  Against the claim as the specification states it (a stop in the Off state still changes
  the visible status text and is not a no-op on what is observed): while the models load,
  a stop in the Off state leaves the status line and the whole view as they were, and
  with the models loaded a second stop in a row is the identity.
\<close>

theorem stopCamera_invisible_counterexample:
  "isCameraOn initial_state = False
   \<and> statusText (stopCamera initial_state) = statusText initial_state
   \<and> view (stopCamera initial_state) = view initial_state
   \<and> isCameraOn (stopCamera ready_state) = False
   \<and> stopCamera (stopCamera ready_state) = stopCamera ready_state"
  unfolding stop_ready_eval
  by (simp add: ready_state_eval initial_state_def stopCamera_def overlay_defs view_def
      statusText_def)




section \<open>When the loop stops\<close>

lemma runLoop_stopped:
  assumes "lp_status lp \<noteq> Scheduled"
  shows "runLoop lp frs s = (lp, s)"
  using assms by (cases frs) simp_all

lemma stopped_eval:
  "stopCamera camera_on = initial_state\<lparr>
       statusMessage := ''Camera stopped'', modelsLoaded := True, cocoModel := True,
       video := \<lparr>srcObject = None, paused = True, ended = False,
                 videoWidth = 640, videoHeight = 480\<rparr>,
       console := [LogModelsLoaded],
       loops := [\<lparr>lp_modelsLoaded = True, lp_cocoModel = True,
                  lp_displaySize = (640, 480), lp_status = Scheduled\<rparr>]\<rparr>"
  by (simp add: camera_on_eval initial_state_def stopCamera_def overlay_defs example_defs)

lemma stopped_frame_eval:
  "animationFrame 0 (frameOf []) (stopCamera camera_on) =
     (stopCamera camera_on)\<lparr>loops := [\<lparr>lp_modelsLoaded = True, lp_cocoModel = True,
                  lp_displaySize = (640, 480), lp_status = Returned\<rparr>]\<rparr>"
  by (simp add: stopped_eval initial_state_def animationFrame_def detect_def)

lemma voice_start_eval:
  "onresult [[''start camera'']] (Inr (webcam 1)) None (frameOf []) ready_state =
     initial_state\<lparr>
       isCameraOn := True, statusMessage := ''Camera started'',
       modelsLoaded := True, cocoModel := True,
       video := \<lparr>srcObject = Some (webcam 1), paused = False, ended = False,
                 videoWidth = 640, videoHeight = 480\<rparr>,
       liveTracks := {1}, console := [LogModelsLoaded, LogVoiceCommand ''start camera''],
       loops := [\<lparr>lp_modelsLoaded = False, lp_cocoModel = False,
                  lp_displaySize = (640, 480), lp_status = Returned\<rparr>]\<rparr>"
  by (simp add: onresult_def transcript_of_def toLowerCase_def toLowerChar_def trim_def
      isWhiteSpace_def ready_state_eval initial_state_def startCamera_def detectLoop_def
      detect_def firstRender_def matchDimensions_def webcam_def)

lemma early_start_eval:
  "clickStart (Inr (webcam 1)) None (frameOf []) initial_state =
     initial_state\<lparr>
       isCameraOn := True, statusMessage := ''Camera started'',
       video := \<lparr>srcObject = Some (webcam 1), paused = False, ended = False,
                 videoWidth = 640, videoHeight = 480\<rparr>,
       liveTracks := {1},
       loops := [\<lparr>lp_modelsLoaded = False, lp_cocoModel = False,
                  lp_displaySize = (640, 480), lp_status = Returned\<rparr>]\<rparr>"
  by (simp add: initial_state_def clickStart_def currentRender_def startCamera_def
      detectLoop_def detect_def matchDimensions_def webcam_def)

text \<open>
  Claim C2, as the code has it. An iteration whose precondition is false (the models or
  the object model missing in the closure, or the video paused or ended) does no detection
  and no rendering: the state is left as it is. It does not schedule the next iteration
  either: the guard returns before \<^verbatim>\<open>requestAnimationFrame\<close>, the loop has ended, the
  frames that follow are never looked at, and a later animation frame finds no callback
  of this loop to run.
\<close>

theorem detect_guard_ends_loop:
  assumes "\<not> lp_modelsLoaded lp \<or> \<not> lp_cocoModel lp \<or> paused (video s) \<or> ended (video s)"
  shows "detect lp fr s = (lp\<lparr>lp_status := Returned\<rparr>, s)
       \<and> runLoop (lp\<lparr>lp_status := Scheduled\<rparr>) (fr # frs) s = (lp\<lparr>lp_status := Returned\<rparr>, s)
       \<and> (i < length (loops s) \<and> loops s ! i = lp\<lparr>lp_status := Scheduled\<rparr> \<longrightarrow>
            animationFrame i fr s = s\<lparr>loops := (loops s)[i := lp\<lparr>lp_status := Returned\<rparr>]\<rparr>
            \<and> animationFrame i fr' (animationFrame i fr s) = animationFrame i fr s)"
proof -
  have d: "detect lp' fr s = (lp'\<lparr>lp_status := Returned\<rparr>, s)"
    if "lp_modelsLoaded lp' = lp_modelsLoaded lp" "lp_cocoModel lp' = lp_cocoModel lp" for lp'
    using assms that by (simp add: detect_def)
  have d1: "detect lp fr s = (lp\<lparr>lp_status := Returned\<rparr>, s)" using d by simp
  have d2: "detect (lp\<lparr>lp_status := Scheduled\<rparr>) fr s = (lp\<lparr>lp_status := Returned\<rparr>, s)"
    using d[of "lp\<lparr>lp_status := Scheduled\<rparr>"] by simp
  have r: "runLoop (lp\<lparr>lp_status := Scheduled\<rparr>) (fr # frs) s = (lp\<lparr>lp_status := Returned\<rparr>, s)"
    using d2 by (simp add: runLoop_stopped)
  have a: "animationFrame i fr s = s\<lparr>loops := (loops s)[i := lp\<lparr>lp_status := Returned\<rparr>]\<rparr>
            \<and> animationFrame i fr' (animationFrame i fr s) = animationFrame i fr s"
    if "i < length (loops s)" "loops s ! i = lp\<lparr>lp_status := Scheduled\<rparr>"
  proof -
    have a1: "animationFrame i fr s = s\<lparr>loops := (loops s)[i := lp\<lparr>lp_status := Returned\<rparr>]\<rparr>"
      using that d2 by (simp add: animationFrame_def)
    have "animationFrame i fr' (s\<lparr>loops := (loops s)[i := lp\<lparr>lp_status := Returned\<rparr>]\<rparr>)
          = s\<lparr>loops := (loops s)[i := lp\<lparr>lp_status := Returned\<rparr>]\<rparr>"
      using that(1) by (simp add: animationFrame_def)
    then show ?thesis using a1 by simp
  qed
  show ?thesis using d1 r a by blast
qed

text \<open>The loop of a camera that has just been stopped, at its next animation frame.\<close>

theorem detect_guard_ends_loop_witness:
  "paused (video (stopCamera camera_on))
   \<and> lp_status (loops (stopCamera camera_on) ! 0) = Scheduled
   \<and> activeLoops (stopCamera camera_on) = 1
   \<and> lp_status (loops (animationFrame 0 (frameOf []) (stopCamera camera_on)) ! 0) = Returned
   \<and> painted (canvas (animationFrame 0 (frameOf []) (stopCamera camera_on))) = []
   \<and> activeLoops (animationFrame 0 (frameOf []) (stopCamera camera_on)) = 0"
  using detect_guard_ends_loop
    [where lp = "loops (stopCamera camera_on) ! 0" and s = "stopCamera camera_on" and i = 0
       and fr = "frameOf []" and frs = "[]" and fr' = "frameOf []"]
  by (simp add: stopped_frame_eval stopped_eval initial_state_def activeLoops_def)

text \<open>
  Against the claim as the specification states it (the iteration still schedules the
  next check). The start button pressed before the models have loaded: the camera is On,
  the first iteration has returned, and once the models are loaded an animation frame
  still runs nothing. After a stop the pending iteration ends the loop. A camera started
  by voice, whose closure is that of the first render, is On with no loop scheduled.
\<close>

theorem detect_guard_counterexample:
  "isCameraOn (clickStart (Inr (webcam 1)) None (frameOf []) initial_state)
   \<and> lp_status (loops (clickStart (Inr (webcam 1)) None (frameOf []) initial_state) ! 0) = Returned
   \<and> activeLoops (clickStart (Inr (webcam 1)) None (frameOf []) initial_state) = 0
   \<and> animationFrame 0 (frameOf [])
        (loadModels None (clickStart (Inr (webcam 1)) None (frameOf []) initial_state))
       = loadModels None (clickStart (Inr (webcam 1)) None (frameOf []) initial_state)
   \<and> paused (video (stopCamera camera_on))
   \<and> lp_status (loops (stopCamera camera_on) ! 0) = Scheduled
   \<and> lp_status (loops (animationFrame 0 (frameOf []) (stopCamera camera_on)) ! 0) \<noteq> Scheduled
   \<and> activeLoops (animationFrame 0 (frameOf []) (stopCamera camera_on)) = 0
   \<and> lp_status (loops (onresult [[''start camera'']] (Inr (webcam 1)) None (frameOf []) ready_state) ! 0)
        = Returned
   \<and> isCameraOn (onresult [[''start camera'']] (Inr (webcam 1)) None (frameOf []) ready_state)
   \<and> activeLoops (onresult [[''start camera'']] (Inr (webcam 1)) None (frameOf []) ready_state) = 0"
  unfolding stopped_frame_eval voice_start_eval early_start_eval
  by (simp add: stopped_eval initial_state_def activeLoops_def animationFrame_def loadModels_def)

lemma face_rejected_eval:
  "animationFrame 0 \<lparr>faces = Inl InferenceError, objects = Inr []\<rparr> camera_on =
     camera_on\<lparr>loops := [\<lparr>lp_modelsLoaded = True, lp_cocoModel = True,
                  lp_displaySize = (640, 480), lp_status = Rejected InferenceError\<rparr>]\<rparr>"
  by (simp add: camera_on_eval initial_state_def animationFrame_def detect_def)

lemma object_rejected_eval:
  "animationFrame 0 \<lparr>faces = Inr [], objects = Inl InferenceError\<rparr> camera_on =
     camera_on\<lparr>loops := [\<lparr>lp_modelsLoaded = True, lp_cocoModel = True,
                  lp_displaySize = (640, 480), lp_status = Rejected InferenceError\<rparr>]\<rparr>"
  by (simp add: camera_on_eval initial_state_def animationFrame_def detect_def
      expressionStep_def overlay_defs)

text \<open>
  Claim C3, as the code has it. In an iteration whose precondition holds, a rejected
  perception call ends the loop: nothing in \<^verbatim>\<open>detect\<close> catches the rejection, so the
  call of \<^verbatim>\<open>requestAnimationFrame\<close> on its last line is never reached and the frames
  that follow are never looked at. When the face call rejects, nothing of the frame is
  applied and the state is unchanged; when the object call rejects, the face results of
  the frame have been applied already (overlay, expression text, speech) and no object
  is drawn.
\<close>

theorem detect_rejection_ends_loop:
  assumes "lp_modelsLoaded lp" "lp_cocoModel lp" "\<not> paused (video s)" "\<not> ended (video s)"
  shows "(faces fr = Inl e \<longrightarrow>
            detect lp fr s = (lp\<lparr>lp_status := Rejected e\<rparr>, s)
            \<and> runLoop (lp\<lparr>lp_status := Scheduled\<rparr>) (fr # frs) s = (lp\<lparr>lp_status := Rejected e\<rparr>, s))
       \<and> (faces fr = Inr resized \<and> wellFormedFaces resized \<and> objects fr = Inl e \<longrightarrow>
            (\<exists>s2. expressionStep resized (drawFaces resized s) = Inr s2
                 \<and> detect lp fr s = (lp\<lparr>lp_status := Rejected e\<rparr>, s2)
                 \<and> runLoop (lp\<lparr>lp_status := Scheduled\<rparr>) (fr # frs) s
                      = (lp\<lparr>lp_status := Rejected e\<rparr>, s2)))"
proof -
  have pre: "\<not> (\<not> lp_modelsLoaded lp' \<or> \<not> lp_cocoModel lp' \<or> paused (video s) \<or> ended (video s))"
    if "lp_modelsLoaded lp' = lp_modelsLoaded lp" "lp_cocoModel lp' = lp_cocoModel lp" for lp'
    using assms that by simp
  have a: "detect lp fr s = (lp\<lparr>lp_status := Rejected e\<rparr>, s)
            \<and> runLoop (lp\<lparr>lp_status := Scheduled\<rparr>) (fr # frs) s = (lp\<lparr>lp_status := Rejected e\<rparr>, s)"
    if f: "faces fr = Inl e"
  proof -
    have "detect lp fr s = (lp\<lparr>lp_status := Rejected e\<rparr>, s)"
      using assms f by (simp add: detect_def)
    moreover have "detect (lp\<lparr>lp_status := Scheduled\<rparr>) fr s = (lp\<lparr>lp_status := Rejected e\<rparr>, s)"
      using assms f by (simp add: detect_def)
    ultimately show ?thesis by (simp add: runLoop_stopped)
  qed
  have b: "\<exists>s2. expressionStep resized (drawFaces resized s) = Inr s2
                 \<and> detect lp fr s = (lp\<lparr>lp_status := Rejected e\<rparr>, s2)
                 \<and> runLoop (lp\<lparr>lp_status := Scheduled\<rparr>) (fr # frs) s
                      = (lp\<lparr>lp_status := Rejected e\<rparr>, s2)"
    if f: "faces fr = Inr resized" and wf: "wellFormedFaces resized" and o: "objects fr = Inl e"
  proof -
    from expressionStep_wf[OF wf] obtain s2
      where s2: "expressionStep resized (drawFaces resized s) = Inr s2" by blast
    have "detect lp fr s = (lp\<lparr>lp_status := Rejected e\<rparr>, s2)"
      using assms f o s2 by (simp add: detect_def)
    moreover have "detect (lp\<lparr>lp_status := Scheduled\<rparr>) fr s = (lp\<lparr>lp_status := Rejected e\<rparr>, s2)"
      using assms f o s2 by (simp add: detect_def)
    ultimately show ?thesis using s2 by (simp add: runLoop_stopped)
  qed
  show ?thesis using a b by blast
qed

text \<open>The running camera, with the face call rejected and with the object call rejected.\<close>

theorem detect_rejection_ends_loop_witness:
  "lp_modelsLoaded (loops camera_on ! 0) \<and> lp_cocoModel (loops camera_on ! 0)
   \<and> \<not> paused (video camera_on) \<and> \<not> ended (video camera_on)
   \<and> lp_status (fst (detect (loops camera_on ! 0)
          \<lparr>faces = Inl InferenceError, objects = Inr []\<rparr> camera_on)) = Rejected InferenceError
   \<and> snd (detect (loops camera_on ! 0)
          \<lparr>faces = Inl InferenceError, objects = Inr []\<rparr> camera_on) = camera_on
   \<and> lp_status (fst (detect (loops camera_on ! 0)
          \<lparr>faces = Inr [], objects = Inl InferenceError\<rparr> camera_on)) = Rejected InferenceError"
  using detect_rejection_ends_loop
    [where lp = "loops camera_on ! 0" and s = camera_on and e = InferenceError
       and fr = "\<lparr>faces = Inl InferenceError, objects = Inr []\<rparr>" and frs = "[]"
       and resized = "[]"]
    detect_rejection_ends_loop
    [where lp = "loops camera_on ! 0" and s = camera_on and e = InferenceError
       and fr = "\<lparr>faces = Inr [], objects = Inl InferenceError\<rparr>" and frs = "[]"
       and resized = "[]"]
  by (simp add: camera_on_eval initial_state_def detect_def expressionStep_def overlay_defs
      wellFormedFaces_def)

text \<open>
  Against the claim as the specification states it (the loop survives a rejected call and
  schedules the next iteration): after either rejection no loop is scheduled any more.
\<close>

theorem detect_rejection_counterexample:
  "lp_status (loops camera_on ! 0) = Scheduled
   \<and> activeLoops camera_on = 1
   \<and> lp_status (loops (animationFrame 0 \<lparr>faces = Inl InferenceError, objects = Inr []\<rparr>
                          camera_on) ! 0) \<noteq> Scheduled
   \<and> activeLoops (animationFrame 0 \<lparr>faces = Inl InferenceError, objects = Inr []\<rparr> camera_on) = 0
   \<and> lp_status (loops (animationFrame 0 \<lparr>faces = Inr [], objects = Inl InferenceError\<rparr>
                          camera_on) ! 0) \<noteq> Scheduled
   \<and> activeLoops (animationFrame 0 \<lparr>faces = Inr [], objects = Inl InferenceError\<rparr> camera_on) = 0"
  unfolding face_rejected_eval object_rejected_eval
  by (simp add: camera_on_eval initial_state_def activeLoops_def)

section \<open>Voice commands, classified\<close>

lemmas string_defs = toLowerCase_def toLowerChar_def trim_def isWhiteSpace_def

lemma transcript_of_last: "transcript_of (rs @ [t # alts]) = Some t"
  by (simp add: transcript_of_def)

lemma isWhiteSpace_toLowerChar: "isWhiteSpace (toLowerChar c) = isWhiteSpace c"
  by (simp add: toLowerChar_def isWhiteSpace_def)

lemma toLowerCase_trim: "toLowerCase (trim t) = trim (toLowerCase t)"
proof -
  have comp: "isWhiteSpace \<circ> toLowerChar = isWhiteSpace"
    by (rule ext) (simp add: isWhiteSpace_toLowerChar)
  show ?thesis
    by (simp add: toLowerCase_def trim_def rev_map dropWhile_map comp)
qed

lemma trim_surrounding:
  assumes a: "\<forall>c\<in>set a. isWhiteSpace c" and b: "\<forall>c\<in>set b. isWhiteSpace c"
  shows "trim (a @ t @ b) = trim t"
proof -
  have front: "dropWhile isWhiteSpace (a @ t @ b) = dropWhile isWhiteSpace (t @ b)"
    by (rule dropWhile_append2) (use a in simp)
  show ?thesis
  proof (cases "\<exists>x\<in>set t. \<not> isWhiteSpace x")
    case True
    then obtain x where "x \<in> set t" "\<not> isWhiteSpace x" by blast
    then have "dropWhile isWhiteSpace (t @ b) = dropWhile isWhiteSpace t @ b"
      by (simp add: dropWhile_append1)
    moreover have "dropWhile isWhiteSpace (rev b @ ys) = dropWhile isWhiteSpace ys" for ys
      by (rule dropWhile_append2) (use b in simp)
    ultimately show ?thesis using front by (simp add: trim_def)
  next
    case False
    then have all: "\<forall>x\<in>set (t @ b). isWhiteSpace x" and allt: "\<forall>x\<in>set t. isWhiteSpace x"
      using b by auto
    have e1: "dropWhile isWhiteSpace (t @ b) = []"
      using all by (simp only: dropWhile_eq_Nil_conv)
    have e2: "dropWhile isWhiteSpace t = []"
      using allt by (simp only: dropWhile_eq_Nil_conv)
    show ?thesis unfolding trim_def front e1 e2 by simp
  qed
qed

lemma onresult_classified:
  "onresult (rs @ [t # alts]) acquired played fr s =
     spec_perform (spec_classify t) acquired played fr
       (s\<lparr>console := console s @ [LogVoiceCommand (toLowerCase (trim t))]\<rparr>)"
  by (simp add: onresult_def transcript_of_last spec_perform_def spec_classify_def Let_def)

lemma classify_examples:
  "spec_classify ''Could you please Start Camera'' = StartCamera"
  "spec_classify ''please STOP camera now'' = StopCamera"
  "spec_classify ''hello world'' = Unknown"
  by (simp_all add: spec_classify_def string_defs)

lemma voice_polite_start_eval:
  "onresult [[''Could you please Start Camera'']] (Inr (webcam 1)) None (frameOf []) ready_state =
     initial_state\<lparr>
       isCameraOn := True, statusMessage := ''Camera started'',
       modelsLoaded := True, cocoModel := True,
       video := \<lparr>srcObject = Some (webcam 1), paused = False, ended = False,
                 videoWidth = 640, videoHeight = 480\<rparr>,
       liveTracks := {1},
       console := [LogModelsLoaded, LogVoiceCommand ''could you please start camera''],
       loops := [\<lparr>lp_modelsLoaded = False, lp_cocoModel = False,
                  lp_displaySize = (640, 480), lp_status = Returned\<rparr>]\<rparr>"
  by (simp add: onresult_def transcript_of_def string_defs ready_state_eval initial_state_def
      startCamera_def detectLoop_def detect_def firstRender_def matchDimensions_def webcam_def)

lemma voice_stop_eval:
  "onresult [[''please STOP camera now'']] (Inr (webcam 2)) None (frameOf []) camera_on =
     (stopCamera camera_on)\<lparr>console := [LogModelsLoaded,
                                           LogVoiceCommand ''please stop camera now'']\<rparr>"
  by (simp add: onresult_def transcript_of_def string_defs camera_on_eval initial_state_def
      stopCamera_def overlay_defs webcam_def)

lemma voice_other_eval:
  "onresult [[''hello world'']] (Inr (webcam 2)) None (frameOf []) camera_on =
     camera_on\<lparr>console := [LogModelsLoaded, LogVoiceCommand ''hello world'']\<rparr>"
  by (simp add: onresult_def transcript_of_def string_defs camera_on_eval initial_state_def)

lemma voice_both_eval:
  "onresult [[''Stop camera, no, start camera'']] (Inr (webcam 2)) None (frameOf []) camera_on =
     camera_on\<lparr>
       video := \<lparr>srcObject = Some (webcam 2), paused = False, ended = False,
                 videoWidth = 640, videoHeight = 480\<rparr>,
       canvas := \<lparr>cwidth = 640, cheight = 480, painted = []\<rparr>,
       liveTracks := {1, 2},
       console := [LogModelsLoaded, LogVoiceCommand ''stop camera, no, start camera''],
       loops := [\<lparr>lp_modelsLoaded = True, lp_cocoModel = True,
                  lp_displaySize = (640, 480), lp_status = Scheduled\<rparr>,
                 \<lparr>lp_modelsLoaded = False, lp_cocoModel = False,
                  lp_displaySize = (640, 480), lp_status = Returned\<rparr>]\<rparr>"
  by (simp add: onresult_def transcript_of_def string_defs camera_on_eval initial_state_def
      startCamera_def detectLoop_def detect_def firstRender_def matchDimensions_def webcam_def
      insert_commute)

lemma includes_str_sublist: "includes_str h n = sublist n h"
  by (induction h) (simp_all add: sublist_Cons_right)

lemma sublist_dropWhile:
  assumes "n \<noteq> []" "\<not> P (hd n)"
  shows "sublist n (dropWhile P h) = sublist n h"
proof (induction h)
  case Nil
  show ?case by simp
next
  case (Cons c cs)
  show ?case
  proof (cases "P c")
    case True
    have "\<not> prefix n (c # cs)"
      using assms True by (cases n) auto
    then show ?thesis using True Cons.IH by (simp add: sublist_Cons_right)
  next
    case False
    then show ?thesis by simp
  qed
qed

lemma sublist_trim:
  assumes "n \<noteq> []" "\<not> isWhiteSpace (hd n)" "\<not> isWhiteSpace (last n)"
  shows "sublist n (trim h) = sublist n h"
proof -
  have r: "rev n \<noteq> []" "\<not> isWhiteSpace (hd (rev n))"
    using assms by (simp_all add: hd_rev)
  have "sublist n (trim h)
          = sublist (rev n) (dropWhile isWhiteSpace (rev (dropWhile isWhiteSpace h)))"
    by (simp add: trim_def sublist_rev_right)
  also have "\<dots> = sublist (rev n) (rev (dropWhile isWhiteSpace h))"
    by (rule sublist_dropWhile[where P = isWhiteSpace, OF r])
  also have "\<dots> = sublist n (dropWhile isWhiteSpace h)"
    by (simp add: sublist_rev)
  also have "\<dots> = sublist n h"
    by (rule sublist_dropWhile[where P = isWhiteSpace, OF assms(1,2)])
  finally show ?thesis .
qed

lemma includes_trim_phrase:
  "includes_str (toLowerCase (trim t)) ''start camera'' = includes_str (toLowerCase t) ''start camera''"
  "includes_str (toLowerCase (trim t)) ''stop camera'' = includes_str (toLowerCase t) ''stop camera''"
  unfolding toLowerCase_trim includes_str_sublist
  by (rule sublist_trim; simp add: isWhiteSpace_def)+

lemma squeeze_examples:
  "spec_normalize ''start  camera'' = spec_normalize ''start camera''"
  "spec_normalize (''Stop'' @ [CHR 0x09] @ ''camera'') = spec_normalize ''stop camera''"
  by (simp_all add: spec_normalize_def string_defs)

lemma inner_space_eval:
  "onresult [[''start  camera'']] (Inr (webcam 1)) None (frameOf []) ready_state
     = ready_state\<lparr>console := [LogModelsLoaded, LogVoiceCommand ''start  camera'']\<rparr>"
  by (simp add: onresult_def transcript_of_def string_defs ready_state_eval initial_state_def)

lemma inner_tab_eval:
  "onresult [[''Stop'' @ [CHR 0x09] @ ''camera'']] (Inr (webcam 2)) None (frameOf []) camera_on
     = camera_on\<lparr>console := [LogModelsLoaded,
                                LogVoiceCommand (''stop'' @ [CHR 0x09] @ ''camera'')]\<rparr>"
  by (simp add: onresult_def transcript_of_def string_defs camera_on_eval initial_state_def)

text \<open>
  Claim C7, as the code has it. What the handler does with the transcript of a recognition
  event is the classification in the specification's order, on the trimmed and lower-cased
  transcript: a transcript whose normal form contains \<^verbatim>\<open>start camera\<close> starts the
  camera, otherwise one that contains \<^verbatim>\<open>stop camera\<close> stops it, and any other
  transcript is Unknown and nothing but the console line happens. The three transcripts
  of the specification are classified as it says. The class does not depend on letter
  case (two transcripts with the same lower-casing have the same class). Of white space
  it ignores only what surrounds the transcript, and trimming does not change the class:
  the class is that of the lower-cased transcript, matched as a substring with the single
  space between the two words, so white space inside the transcript counts.
\<close>

theorem voice_classification:
  "onresult (rs @ [t # alts]) acquired played fr s =
     spec_perform (spec_classify t) acquired played fr
       (s\<lparr>console := console s @ [LogVoiceCommand (toLowerCase (trim t))]\<rparr>)
   \<and> (spec_classify t = StartCamera \<longleftrightarrow> includes_str (toLowerCase (trim t)) ''start camera'')
   \<and> (spec_classify t = StopCamera \<longleftrightarrow>
        \<not> includes_str (toLowerCase (trim t)) ''start camera''
        \<and> includes_str (toLowerCase (trim t)) ''stop camera'')
   \<and> (spec_classify t = Unknown \<longrightarrow>
        onresult (rs @ [t # alts]) acquired played fr s =
          s\<lparr>console := console s @ [LogVoiceCommand (toLowerCase (trim t))]\<rparr>)
   \<and> spec_classify ''Could you please Start Camera'' = StartCamera
   \<and> spec_classify ''please STOP camera now'' = StopCamera
   \<and> spec_classify ''hello world'' = Unknown
   \<and> (toLowerCase t = toLowerCase t' \<longrightarrow> spec_classify t = spec_classify t')
   \<and> ((\<forall>c\<in>set a. isWhiteSpace c) \<and> (\<forall>c\<in>set b. isWhiteSpace c)
        \<longrightarrow> spec_classify (a @ t @ b) = spec_classify t)
   \<and> spec_classify t =
        (if includes_str (toLowerCase t) ''start camera'' then StartCamera
         else if includes_str (toLowerCase t) ''stop camera'' then StopCamera
         else Unknown)"
proof -
  have p1: "onresult (rs @ [t # alts]) acquired played fr s =
     spec_perform (spec_classify t) acquired played fr
       (s\<lparr>console := console s @ [LogVoiceCommand (toLowerCase (trim t))]\<rparr>)"
    by (rule onresult_classified)
  have p2: "spec_classify t = StartCamera \<longleftrightarrow> includes_str (toLowerCase (trim t)) ''start camera''"
    by (simp add: spec_classify_def Let_def)
  have p3: "spec_classify t = StopCamera \<longleftrightarrow>
        \<not> includes_str (toLowerCase (trim t)) ''start camera''
        \<and> includes_str (toLowerCase (trim t)) ''stop camera''"
    by (simp add: spec_classify_def Let_def)
  have p4: "onresult (rs @ [t # alts]) acquired played fr s =
          s\<lparr>console := console s @ [LogVoiceCommand (toLowerCase (trim t))]\<rparr>"
    if "spec_classify t = Unknown"
    using that p1 by (simp add: spec_perform_def)
  have p5: "spec_classify t = spec_classify t'" if "toLowerCase t = toLowerCase t'"
  proof -
    have "toLowerCase (trim t) = toLowerCase (trim t')"
      using that by (simp add: toLowerCase_trim)
    then show ?thesis by (simp add: spec_classify_def)
  qed
  have p6: "spec_classify (a @ t @ b) = spec_classify t"
    if "\<forall>c\<in>set a. isWhiteSpace c" "\<forall>c\<in>set b. isWhiteSpace c"
    using trim_surrounding[OF that] by (simp add: spec_classify_def)
  have p7: "spec_classify t =
        (if includes_str (toLowerCase t) ''start camera'' then StartCamera
         else if includes_str (toLowerCase t) ''stop camera'' then StopCamera
         else Unknown)"
    by (simp add: spec_classify_def Let_def includes_trim_phrase)
  show ?thesis using p1 p2 p3 p4 p5 p6 p7 classify_examples by blast
qed

text \<open>The three transcripts of the specification, spoken to the component.\<close>

theorem voice_classification_witness:
  "isCameraOn (onresult [[''Could you please Start Camera'']] (Inr (webcam 1)) None (frameOf [])
                 ready_state)
   \<and> srcObject (video (onresult [[''Could you please Start Camera'']] (Inr (webcam 1)) None
                 (frameOf []) ready_state)) = Some (webcam 1)
   \<and> isCameraOn (onresult [[''please STOP camera now'']] (Inr (webcam 2)) None (frameOf [])
                 camera_on) = False
   \<and> liveTracks (onresult [[''please STOP camera now'']] (Inr (webcam 2)) None (frameOf [])
                 camera_on) = {}
   \<and> view (onresult [[''hello world'']] (Inr (webcam 2)) None (frameOf []) camera_on)
        = view camera_on
   \<and> spec_classify ''  START camera  '' = spec_classify ''start camera''"
proof -
  note t = voice_classification
    [where rs = "[]" and t = "''Could you please Start Camera''" and alts = "[]"
       and acquired = "Inr (webcam 1)" and played = None and fr = "frameOf []"
       and s = ready_state and t' = "''could you please start camera''"
       and a = "'' ''" and b = "'' ''"]
  have "spec_classify ''  START camera  '' = spec_classify ''start camera''"
    by (simp add: spec_classify_def string_defs)
  then show ?thesis
    using t unfolding voice_polite_start_eval voice_stop_eval voice_other_eval stopped_eval
    by (simp add: camera_on_eval initial_state_def view_def statusText_def)
qed

text \<open>
  Against the claim as the specification states it (classification is insensitive to white
  space): two spaces, or a tab, between the two words give the same transcript up to
  white space, and the handler does nothing where one space starts or stops the camera.
\<close>

theorem voice_inner_space_counterexample:
  "spec_normalize ''start  camera'' = spec_normalize ''start camera''
   \<and> spec_classify ''start camera'' = StartCamera
   \<and> spec_classify ''start  camera'' = Unknown
   \<and> isCameraOn (onresult [[''start camera'']] (Inr (webcam 1)) None (frameOf []) ready_state)
   \<and> isCameraOn (onresult [[''start  camera'']] (Inr (webcam 1)) None (frameOf []) ready_state)
        = False
   \<and> spec_normalize (''Stop'' @ [CHR 0x09] @ ''camera'') = spec_normalize ''stop camera''
   \<and> spec_classify (''Stop'' @ [CHR 0x09] @ ''camera'') = Unknown
   \<and> isCameraOn (onresult [[''Stop'' @ [CHR 0x09] @ ''camera'']] (Inr (webcam 2)) None
                    (frameOf []) camera_on)"
proof -
  have c: "spec_classify ''start camera'' = StartCamera"
    "spec_classify ''start  camera'' = Unknown"
    "spec_classify (''Stop'' @ [CHR 0x09] @ ''camera'') = Unknown"
    by (simp_all add: spec_classify_def string_defs)
  show ?thesis
    unfolding inner_space_eval inner_tab_eval voice_start_eval
    using c squeeze_examples
    by (simp add: ready_state_eval camera_on_eval initial_state_def)
qed

text \<open>
  Claim C9. A transcript whose normal form contains both \<^verbatim>\<open>start camera\<close> and
  \<^verbatim>\<open>stop camera\<close> starts the camera: the handler does exactly what a start does
  and the stop branch is not taken, the test for \<^verbatim>\<open>start camera\<close> coming first.
\<close>

theorem start_camera_precedence:
  assumes "includes_str (toLowerCase (trim t)) ''start camera''"
    and "includes_str (toLowerCase (trim t)) ''stop camera''"
  shows "onresult (rs @ [t # alts]) acquired played fr s =
           startCamera firstRender acquired played fr
             (s\<lparr>console := console s @ [LogVoiceCommand (toLowerCase (trim t))]\<rparr>)
       \<and> spec_classify t = StartCamera"
  using assms by (simp add: onresult_def transcript_of_last spec_classify_def Let_def)

text \<open>
  Both phrases in one utterance while the camera is On: the old track is still live and
  the expression text is still there, so nothing was stopped.
\<close>

theorem start_camera_precedence_witness:
  "includes_str (toLowerCase (trim ''Stop camera, no, start camera'')) ''start camera''
   \<and> includes_str (toLowerCase (trim ''Stop camera, no, start camera'')) ''stop camera''
   \<and> isCameraOn (onresult [[''Stop camera, no, start camera'']] (Inr (webcam 2)) None
                   (frameOf []) camera_on)
   \<and> statusMessage (onresult [[''Stop camera, no, start camera'']] (Inr (webcam 2)) None
                   (frameOf []) camera_on) = ''Camera started''
   \<and> liveTracks (onresult [[''Stop camera, no, start camera'']] (Inr (webcam 2)) None
                   (frameOf []) camera_on) = {1, 2}
   \<and> expression (onresult [[''Stop camera, no, start camera'']] (Inr (webcam 2)) None
                   (frameOf []) camera_on) = ''No face detected''"
proof -
  have a: "includes_str (toLowerCase (trim ''Stop camera, no, start camera'')) ''start camera''"
    by (simp add: string_defs)
  have b: "includes_str (toLowerCase (trim ''Stop camera, no, start camera'')) ''stop camera''"
    by (simp add: string_defs)
  note t = start_camera_precedence [OF a b, where rs = "[]" and alts = "[]"
      and acquired = "Inr (webcam 2)" and played = None and fr = "frameOf []" and s = camera_on]
  show ?thesis
    using a b t unfolding voice_both_eval
    by (simp add: camera_on_eval initial_state_def)
qed

section \<open>The debouncer against its specification\<close>

lemma spec_utterances_Cons:
  "spec_utterances lastSpoken (x # rest) = spec_utterances lastSpoken [x] @ spec_utterances x rest"
  by (cases x) simp_all

lemma utteranceEvents_append:
  "utteranceEvents (us @ vs) = utteranceEvents us @ utteranceEvents vs"
  by (simp add: utteranceEvents_def)

text \<open>One iteration of a running loop on a well-formed frame, in the specification's terms.\<close>

lemma detect_step_spec:
  assumes lp: "lp_modelsLoaded lp" "lp_cocoModel lp"
    and v: "\<not> paused (video s)" "\<not> ended (video s)"
    and ok: "frameOk fr"
  shows "\<exists>s'. detect lp fr s = (lp\<lparr>lp_status := Scheduled\<rparr>, s')
      \<and> video s' = video s
      \<and> speech s' = speech s @ utteranceEvents (spec_utterances (lastLabel s) [frameLabel fr])
      \<and> lastLabel s' = frameLabel fr
      \<and> (faces fr = Inr [] \<longrightarrow> expression s' = ''No face detected''
                                \<and> lastSpokenExpression s' = '''')"
proof -
  from ok obtain fs ps where f: "faces fr = Inr fs" and o: "objects fr = Inr ps"
    and wf: "wellFormedFaces fs"
    by (auto simp: frameOk_def split: sum.splits)
  let ?s1 = "drawFaces fs s"
  have s1: "speech ?s1 = speech s" "lastSpokenExpression ?s1 = lastSpokenExpression s"
    "video ?s1 = video s"
    by (simp_all add: drawFaces_def)
  show ?thesis
  proof (cases fs)
    case Nil
    let ?s2 = "?s1\<lparr>expression := ''No face detected'', lastSpokenExpression := ''''\<rparr>"
    have d: "detect lp fr s = (lp\<lparr>lp_status := Scheduled\<rparr>, drawPredictions ps ?s2)"
      using lp v f o Nil by (simp add: detect_def expressionStep_def)
    have lbl: "frameLabel fr = None"
      using f Nil by (simp add: frameLabel_def selectedLabel_def)
    show ?thesis
      unfolding d lbl
      by (simp add: drawPredictions_def drawFaces_def lastLabel_def utteranceEvents_def)
  next
    case (Cons face rest)
    then have ne: "expressions face \<noteq> []" and nonempty: "'''' \<notin> set (map fst (expressions face))"
      using wf by (simp_all add: wellFormedFaces_def)
    from maxExpression_key[OF ne] obtain l where mx: "maxExpression (expressions face) = Inr l"
      and key: "l \<in> set (map fst (expressions face))" by blast
    have l: "l \<noteq> ''''" using key nonempty by metis
    from expressionStep_face[OF mx, of rest ?s1] obtain s2
      where e: "expressionStep (face # rest) ?s1 = Inr s2"
      and sp: "speech s2 = speech ?s1 @ (if l \<noteq> lastSpokenExpression ?s1
                                  then [Cancel, Speak (''You look '' @ l)] else [])"
      and ls: "lastSpokenExpression s2 = l"
      by blast
    have d: "detect lp fr s = (lp\<lparr>lp_status := Scheduled\<rparr>, drawPredictions ps s2)"
      using lp v f o Cons e by (simp add: detect_def)
    have lbl: "frameLabel fr = Some l"
      using f Cons mx by (simp add: frameLabel_def selectedLabel_def)
    have vid: "video s2 = video s"
      using expressionStep_frame[OF e] s1 by simp
    have differs: "(Some l \<noteq> lastLabel s) = (l \<noteq> lastSpokenExpression s)"
      using l by (auto simp: lastLabel_def)
    have "speech (drawPredictions ps s2)
            = speech s @ utteranceEvents (spec_utterances (lastLabel s) [Some l])"
      using sp s1 differs by (simp add: drawPredictions_def utteranceEvents_def)
    moreover have "lastLabel (drawPredictions ps s2) = Some l"
      using ls l by (simp add: drawPredictions_def lastLabel_def)
    moreover have "video (drawPredictions ps s2) = video s"
      using vid by (simp add: drawPredictions_def)
    moreover have "faces fr \<noteq> Inr []" using f Cons by simp
    ultimately show ?thesis unfolding d lbl by simp
  qed
qed

lemma runLoop_spec:
  assumes lp: "lp_modelsLoaded lp" "lp_cocoModel lp" "lp_status lp = Scheduled"
    and v: "\<not> paused (video s)" "\<not> ended (video s)"
    and ok: "\<forall>fr\<in>set frs. frameOk fr"
  shows "\<exists>s'. runLoop lp frs s = (lp, s')
      \<and> video s' = video s
      \<and> speech s' = speech s @ utteranceEvents (spec_utterances (lastLabel s) (map frameLabel frs))
      \<and> lastLabel s' = (if frs = [] then lastLabel s else frameLabel (last frs))
      \<and> (frs \<noteq> [] \<and> faces (last frs) = Inr [] \<longrightarrow>
            expression s' = ''No face detected'' \<and> lastSpokenExpression s' = '''')"
  using v ok
proof (induction frs arbitrary: s)
  case Nil
  show ?case by (simp add: utteranceEvents_def)
next
  case (Cons fr frs)
  have same: "lp\<lparr>lp_status := Scheduled\<rparr> = lp" using lp(3) by simp
  from Cons.prems have okfr: "frameOk fr" and okrest: "\<forall>fr\<in>set frs. frameOk fr" by simp_all
  from detect_step_spec[OF lp(1,2) Cons.prems(1,2) okfr] obtain s1
    where d: "detect lp fr s = (lp, s1)"
      and v1: "video s1 = video s"
      and sp1: "speech s1 = speech s @ utteranceEvents (spec_utterances (lastLabel s) [frameLabel fr])"
      and l1: "lastLabel s1 = frameLabel fr"
      and e1: "faces fr = Inr [] \<longrightarrow> expression s1 = ''No face detected''
                                \<and> lastSpokenExpression s1 = ''''"
    unfolding same by blast
  have v1': "\<not> paused (video s1)" "\<not> ended (video s1)" using v1 Cons.prems(1,2) by simp_all
  from Cons.IH[OF v1' okrest] obtain s'
    where r: "runLoop lp frs s1 = (lp, s')"
      and v': "video s' = video s1"
      and sp': "speech s' = speech s1 @ utteranceEvents (spec_utterances (lastLabel s1) (map frameLabel frs))"
      and l': "lastLabel s' = (if frs = [] then lastLabel s1 else frameLabel (last frs))"
      and e': "frs \<noteq> [] \<and> faces (last frs) = Inr [] \<longrightarrow>
            expression s' = ''No face detected'' \<and> lastSpokenExpression s' = ''''"
    by blast
  have run: "runLoop lp (fr # frs) s = (lp, s')"
    using lp(3) d r by simp
  have nil: "s' = s1" if "frs = []" using r that by simp
  have "speech s' = speech s @ utteranceEvents (spec_utterances (lastLabel s) (map frameLabel (fr # frs)))"
  proof -
    have "spec_utterances (lastLabel s) (frameLabel fr # map frameLabel frs)
            = spec_utterances (lastLabel s) [frameLabel fr]
              @ spec_utterances (frameLabel fr) (map frameLabel frs)"
      by (rule spec_utterances_Cons)
    then show ?thesis
      using sp1 sp' l1 by (simp add: utteranceEvents_append)
  qed
  moreover have "lastLabel s' = frameLabel (last (fr # frs))"
    using l' l1 by simp
  moreover have "expression s' = ''No face detected'' \<and> lastSpokenExpression s' = ''''"
    if "faces (last (fr # frs)) = Inr []"
    using that e1 e' nil by (cases "frs = []") simp_all
  moreover have "video s' = video s" using v' v1 by simp
  ultimately show ?case using run by simp
qed

lemma scenario_ok: "\<forall>fr\<in>set scenario. frameOk fr"
  by (simp add: scenario_def frameOk_def frameOf_def faceWith_def wellFormedFaces_def)

lemma scenario_labels:
  "map frameLabel scenario = [Some ''happy'', Some ''happy'', None, Some ''sad'']"
  by (simp add: scenario_def frameLabel_def selectedLabel_def frameOf_def faceWith_def
      maxExpression_def pick_def score_def)

lemma scenario_last: "scenario \<noteq> [] \<and> frameLabel (last scenario) = Some ''sad''"
  by (simp add: scenario_def frameLabel_def selectedLabel_def frameOf_def faceWith_def
      maxExpression_def pick_def score_def)

lemma camera_on_loop:
  "loops camera_on ! 0 = \<lparr>lp_modelsLoaded = True, lp_cocoModel = True,
                           lp_displaySize = (640, 480), lp_status = Scheduled\<rparr>"
  "\<not> paused (video camera_on)" "\<not> ended (video camera_on)"
  "speech camera_on = []" "lastLabel camera_on = None"
  by (simp_all add: camera_on_eval initial_state_def lastLabel_def)

lemma maxExpression_maximal:
  assumes "obj \<noteq> []"
  shows "\<exists>l. maxExpression obj = Inr l \<and> l \<in> set (map fst obj)
           \<and> (\<forall>k\<in>set (map fst obj). score obj k \<le> score obj l)"
proof -
  let ?ks = "map fst obj"
  have ne: "?ks \<noteq> []" using assms by simp
  from foldl_pick_last_max[OF ne, of obj]
  obtain i where i: "i < length ?ks"
    and r: "foldl (pick obj) (hd ?ks) (tl ?ks) = ?ks ! i"
    and le: "\<forall>j<length ?ks. score obj (?ks ! j) \<le> score obj (?ks ! i)"
    by blast
  have mem: "?ks ! i \<in> set ?ks" using i by (rule nth_mem)
  have all: "score obj k \<le> score obj (?ks ! i)" if "k \<in> set ?ks" for k
  proof -
    from that obtain j where "j < length ?ks" "?ks ! j = k" by (auto simp: in_set_conv_nth)
    then show ?thesis using le by blast
  qed
  have "maxExpression obj = Inr (?ks ! i)"
    using maxExpression_fold[OF assms] r by simp
  then show ?thesis using mem all by blast
qed

lemma spec_argmax_score:
  assumes "l \<in> set (map fst obj)" and "\<forall>k\<in>set (map fst obj). score obj k \<le> score obj l"
  shows "spec_argmax obj l"
proof -
  have key: "\<exists>w. map_of obj k = Some w \<and> score obj k = w" if "k \<in> set (map fst obj)" for k
  proof -
    from that have "map_of obj k \<noteq> None" by (simp add: map_of_eq_None_iff)
    then show ?thesis by (auto simp: score_def)
  qed
  from key[OF assms(1)] obtain v where v: "map_of obj l = Some v" "score obj l = v" by blast
  have "list_all (\<lambda>k. case map_of obj k of None \<Rightarrow> True | Some w \<Rightarrow> w \<le> v) (map fst obj)"
    unfolding list_all_iff
  proof
    fix k assume k: "k \<in> set (map fst obj)"
    from key[OF k] obtain w where "map_of obj k = Some w" "score obj k = w" by blast
    then show "case map_of obj k of None \<Rightarrow> True | Some w \<Rightarrow> w \<le> v"
      using assms(2) k v(2) by auto
  qed
  then show ?thesis using v(1) by (simp add: spec_argmax_def)
qed

lemma frameLabel_argmax:
  assumes ok: "frameOk fr"
  shows "(faces fr = Inr [] \<longrightarrow> frameLabel fr = None)
       \<and> (\<forall>f rest. faces fr = Inr (f # rest) \<longrightarrow>
             (\<exists>l. frameLabel fr = Some l \<and> spec_argmax (expressions f) l))"
proof -
  have a: "frameLabel fr = None" if "faces fr = Inr []"
    using that by (simp add: frameLabel_def selectedLabel_def)
  have b: "\<exists>l. frameLabel fr = Some l \<and> spec_argmax (expressions f) l"
    if f: "faces fr = Inr (f # rest)" for f rest
  proof -
    have "expressions f \<noteq> []"
      using ok f by (simp add: frameOk_def wellFormedFaces_def)
    from maxExpression_maximal[OF this] obtain l
      where mx: "maxExpression (expressions f) = Inr l"
        and mem: "l \<in> set (map fst (expressions f))"
        and le: "\<forall>k\<in>set (map fst (expressions f)). score (expressions f) k \<le> score (expressions f) l"
      by blast
    have "frameLabel fr = Some l"
      using f mx by (simp add: frameLabel_def selectedLabel_def)
    then show ?thesis using spec_argmax_score[OF mem le] by blast
  qed
  show ?thesis using a b by blast
qed

lemma long_scenario_ok: "\<forall>fr\<in>set (scenario @ [late_maximum]). frameOk fr"
  by (simp add: scenario_def late_maximum_def frameOk_def frameOf_def faceWith_def
      wellFormedFaces_def)

lemma long_scenario_labels:
  "map frameLabel (scenario @ [late_maximum])
     = [Some ''happy'', Some ''happy'', None, Some ''sad'', Some ''surprised'']"
  by (simp add: scenario_def late_maximum_def frameLabel_def selectedLabel_def frameOf_def
      faceWith_def maxExpression_def pick_def score_def)

lemma long_scenario_last:
  "scenario @ [late_maximum] \<noteq> [] \<and> frameLabel (last (scenario @ [late_maximum])) = Some ''surprised''"
  by (simp add: late_maximum_def frameLabel_def selectedLabel_def frameOf_def faceWith_def
      maxExpression_def pick_def score_def)

lemma late_maximum_argmax:
  "late_maximum \<in> set (scenario @ [late_maximum])"
  "faces late_maximum
     = Inr [faceWith [(''neutral'', 0.10), (''sad'', 0.15), (''surprised'', 0.75)]]"
  "expressions (faceWith [(''neutral'', 0.10), (''sad'', 0.15), (''surprised'', 0.75)])
     = [(''neutral'', 0.10), (''sad'', 0.15), (''surprised'', 0.75)]"
  by (simp_all add: late_maximum_def frameOf_def faceWith_def)

text \<open>
  Claim C5. Let a running loop (models captured, video playing) process any sequence of
  frames of the data model, each with both providers answering and, when it has a face,
  a first face with at least one score and no empty label. Then the loop is still
  scheduled after the last frame, and what has been handed to the speech synthesiser is
  exactly what the specification's debouncer prescribes for the labels of the frames,
  starting from the last spoken label of the state: \<^verbatim>\<open>You look l\<close>, after a cancel,
  at each frame whose label \<^verbatim>\<open>l\<close> differs from the last spoken one, the first frame
  with a face and the first one after a reset counting as a change from none, and nothing
  at a frame whose label is the last spoken one or that has no face. The label of a frame
  with a face is an arg-max of the scores of its first face: a label of that face that no
  label exceeds; a frame without a face has no label. After the sequence the last spoken
  label is the label of the last frame, none when that frame has no face, in which case
  the text shown is \<^verbatim>\<open>No face detected\<close>. The aggregator's step on a frame with no
  face changes only the text and the last spoken label: it does not speak.
\<close>

theorem speech_debounce:
  assumes "lp_modelsLoaded lp" "lp_cocoModel lp" "lp_status lp = Scheduled"
    and "\<not> paused (video s)" "\<not> ended (video s)"
    and "\<forall>fr\<in>set frs. frameOk fr"
  shows "(\<exists>s'. runLoop lp frs s = (lp, s')
      \<and> speech s' = speech s @ utteranceEvents (spec_utterances (lastLabel s) (map frameLabel frs))
      \<and> lastLabel s' = (if frs = [] then lastLabel s else frameLabel (last frs))
      \<and> (frs \<noteq> [] \<and> faces (last frs) = Inr [] \<longrightarrow>
            expression s' = ''No face detected'' \<and> lastSpokenExpression s' = ''''))
      \<and> (\<forall>fr\<in>set frs.
            (faces fr = Inr [] \<longrightarrow> frameLabel fr = None)
          \<and> (\<forall>f rest. faces fr = Inr (f # rest) \<longrightarrow>
                (\<exists>l. frameLabel fr = Some l \<and> spec_argmax (expressions f) l)))
      \<and> expressionStep [] s
           = Inr (s\<lparr>expression := ''No face detected'', lastSpokenExpression := ''''\<rparr>)"
proof -
  have labels: "\<forall>fr\<in>set frs.
            (faces fr = Inr [] \<longrightarrow> frameLabel fr = None)
          \<and> (\<forall>f rest. faces fr = Inr (f # rest) \<longrightarrow>
                (\<exists>l. frameLabel fr = Some l \<and> spec_argmax (expressions f) l))"
    using assms(6) frameLabel_argmax by blast
  show ?thesis
    using runLoop_spec[OF assms] labels expressionStep_empty[of s] by blast
qed

text \<open>
  The scenario of the specification, followed by a face whose greatest score is that of
  its last label, on the camera started from the button: happy is spoken once, the
  unchanged label is silent, the empty frame resets, sad is spoken, then surprised.
\<close>

theorem speech_debounce_witness:
  "speech (snd (runLoop (loops camera_on ! 0) (scenario @ [late_maximum]) camera_on))
     = [Cancel, Speak ''You look happy'', Cancel, Speak ''You look sad'',
        Cancel, Speak ''You look surprised'']
   \<and> lastLabel (snd (runLoop (loops camera_on ! 0) (scenario @ [late_maximum]) camera_on))
       = Some ''surprised''
   \<and> fst (runLoop (loops camera_on ! 0) (scenario @ [late_maximum]) camera_on)
       = loops camera_on ! 0
   \<and> frameLabel late_maximum = Some ''surprised''
   \<and> spec_argmax [(''neutral'', 0.10), (''sad'', 0.15), (''surprised'', 0.75)] ''surprised''
   \<and> \<not> spec_argmax [(''neutral'', 0.10), (''sad'', 0.15), (''surprised'', 0.75)] ''neutral''"
proof -
  have lp: "lp_modelsLoaded (loops camera_on ! 0)" "lp_cocoModel (loops camera_on ! 0)"
    "lp_status (loops camera_on ! 0) = Scheduled"
    by (simp_all add: camera_on_loop(1))
  note t = speech_debounce[OF lp camera_on_loop(2,3) long_scenario_ok]
  from t obtain s'
    where r: "runLoop (loops camera_on ! 0) (scenario @ [late_maximum]) camera_on
                = (loops camera_on ! 0, s')"
    and sp: "speech s' = speech camera_on
               @ utteranceEvents (spec_utterances (lastLabel camera_on)
                   (map frameLabel (scenario @ [late_maximum])))"
    and ll: "lastLabel s' = (if scenario @ [late_maximum] = [] then lastLabel camera_on
                             else frameLabel (last (scenario @ [late_maximum])))"
    by blast
  from t late_maximum_argmax(1,2) obtain l
    where l: "frameLabel late_maximum = Some l"
      "spec_argmax (expressions (faceWith [(''neutral'', 0.10), (''sad'', 0.15),
                                            (''surprised'', 0.75)])) l"
    by blast
  have lbl: "frameLabel late_maximum = Some ''surprised''"
    by (simp add: late_maximum_def frameLabel_def selectedLabel_def frameOf_def faceWith_def
      maxExpression_def pick_def score_def)
  have am: "spec_argmax [(''neutral'', 0.10), (''sad'', 0.15), (''surprised'', 0.75)] ''surprised''"
    using l lbl unfolding late_maximum_argmax(3) by simp
  have notmax: "\<not> spec_argmax [(''neutral'', 0.10), (''sad'', 0.15), (''surprised'', 0.75)] ''neutral''"
    by (simp add: spec_argmax_def)
  have "speech s' = [Cancel, Speak ''You look happy'', Cancel, Speak ''You look sad'',
        Cancel, Speak ''You look surprised'']"
    unfolding sp long_scenario_labels camera_on_loop(4,5) by (simp add: utteranceEvents_def)
  moreover have "lastLabel s' = Some ''surprised''"
    unfolding ll using long_scenario_last by simp
  ultimately show ?thesis unfolding r using lbl am notmax by simp
qed

end
